theory Spec2Isabelle
  imports Complex_Main "HOL-Library.Word"
begin

section \<open>Modelling conventions\<close>

text \<open>
  The development embeds \<^verbatim>\<open>wordcloud.go\<close>. A Go \<^verbatim>\<open>float64\<close> is modelled by a
  \<^typ>\<open>real\<close>: every coordinate and radius the program computes is a sum, difference or
  halving of pixel quantities, and the radii are the integers 1, 6, 11, ..., so rounding
  is not modelled. The font size is the one float that can be infinite or not a number
  (a division by a zero count), so it has the type \<open>float64\<close> below. A Go \<^verbatim>\<open>int\<close>
  is an \<^typ>\<open>int\<close>; pixel coordinates and counters stay far below its range, and the one
  expression that can leave it, the sum of squares in \<^verbatim>\<open>NewWordcloud\<close>, wraps around.
  A panic, or a search that blocks for ever, is the \<open>Inl\<close> branch of a sum.

  Types and functions of the package that live in other files (the box, the spatial hash
  map, the circle) and the external libraries (the gg drawing context, font loading, the
  random source, the goroutine scheduler) are collaborators: they are the fields of the
  record \<open>collab\<close>, and every theorem holds for all of them.
\<close>

section \<open>Data\<close>

text \<open>
  Modelled from the spec: the struct \<^verbatim>\<open>Box\<close> is declared outside \<^verbatim>\<open>wordcloud.go\<close>;
  it is an axis-aligned rectangle with top, left, right and bottom coordinates. The field
  order is the one the assignments in \<^verbatim>\<open>nextRandom\<close> and \<^verbatim>\<open>testRadius\<close> and the positional
  literals in \<^verbatim>\<open>Place\<close> and \<^verbatim>\<open>getPreciseBoundingBoxes\<close> use.
\<close>

record Box =
  Top :: real
  Left :: real
  Right :: real
  Bottom :: real

text \<open>
  Modelled from the spec: the struct \<^verbatim>\<open>point\<close> (fields \<^verbatim>\<open>x\<close>, \<^verbatim>\<open>y\<close>) is declared
  outside \<^verbatim>\<open>wordcloud.go\<close>.
\<close>

record point =
  px :: real
  py :: real

text \<open>\<^verbatim>\<open>color.RGBA\<close>: four bytes.\<close>

datatype color = RGBA "8 word" "8 word" "8 word" "8 word"

text \<open>
  The font size: a finite value, an infinity, or not a number. Only the operations that
  \<^verbatim>\<open>Place\<close> applies to it are defined.
\<close>

datatype float64 = Finite real | PosInf | NegInf | NaN

text \<open>The ways a run can fail to return.\<close>

datatype abort =
    FontLoadPanic    \<comment> \<open>\<^verbatim>\<open>panic(err)\<close> in \<^verbatim>\<open>setFont\<close>\<close>
  | IntnPanic        \<comment> \<open>\<^verbatim>\<open>rand.Intn(n)\<close> with \<open>n \<le> 0\<close>\<close>
  | IndexPanic       \<comment> \<open>\<^verbatim>\<open>sortedWordList[0]\<close> on an empty list\<close>
  | NilFacePanic     \<comment> \<open>\<^verbatim>\<open>dc.SetFontFace\<close> given a nil face\<close>
  | Deadlock         \<comment> \<open>the aggregator waits on \<^verbatim>\<open>aggCh\<close> and no result will come\<close>

record wordCount =
  word :: string
  count :: int

text \<open>Results sent from placement workers (\<^verbatim>\<open>type res\<close>).\<close>

record res =
  res_radius :: real
  res_x :: real
  res_y :: real
  res_failed :: bool

record Options =
  FontMaxSize :: int
  FontMinSize :: int
  RandomPlacement :: bool
  FontFile :: string
  Colors :: "color list"
  BackgroundColor :: color
  Width :: int
  Height :: int
  Mask :: "Box list"
  Debug :: bool

text \<open>
  The \<^verbatim>\<open>Wordcloud\<close> object. \<open>'g\<close> is the spatial hash map, \<open>'dc\<close> the gg context,
  \<open>'c\<close> a circle and \<open>'f\<close> a font face. The fields \<^verbatim>\<open>overlapCount\<close>, \<^verbatim>\<open>words2D\<close> and
  \<^verbatim>\<open>availableColors\<close> are never read and are left out. The maps keyed by \<^verbatim>\<open>float64\<close>
  are maps keyed by \<^typ>\<open>real\<close>; a Go map holds each key once, and the frequency map
  \<^verbatim>\<open>wordList\<close> is the list of its entries in the order the \<^verbatim>\<open>range\<close> loop meets them.

  Two further fields hold what the Go runtime keeps outside the object: \<open>rt_rand\<close> counts
  the calls of \<^verbatim>\<open>rand.Intn\<close> made so far on the process-wide source, and \<open>rt_search\<close>
  counts the concurrent searches started so far.
\<close>

record ('g, 'dc, 'c, 'f) Wordcloud =
  wordList :: "(string \<times> int) list"
  sortedWordList :: "wordCount list"
  w_grid :: 'g
  w_dc :: 'dc
  randomPlacement :: bool
  w_width :: real
  w_height :: real
  opts :: Options
  circles :: "real \<rightharpoonup> 'c"
  fonts :: "float64 \<rightharpoonup> 'f"
  radii :: "real list"
  rt_rand :: nat
  rt_search :: nat

text \<open>
  The collaborators. \<open>gg_LoadFontFace\<close> returns \<open>None\<close> where the library returns an
  error. \<open>rand_raw k\<close> is the raw output of the process-wide random source at its
  \<open>k\<close>-th call. \<open>finish_time k r\<close> is the moment at which the worker that tests the
  radius \<open>r\<close> in the \<open>k\<close>-th concurrent search delivers its result: the workers run in
  parallel, so any order of the radii can occur. \<open>int_bits\<close> is the size of Go's
  \<^verbatim>\<open>int\<close> on the platform, 32 or 64.
\<close>

record ('g, 'dc, 'c, 'f) collab =
  box_fits :: "Box \<Rightarrow> real \<Rightarrow> real \<Rightarrow> bool"
  box_overlaps :: "Box \<Rightarrow> Box \<Rightarrow> bool"
  box_x :: "Box \<Rightarrow> real"
  box_y :: "Box \<Rightarrow> real"
  box_w :: "Box \<Rightarrow> real"
  box_h :: "Box \<Rightarrow> real"
  newSpatialHashMap :: "real \<Rightarrow> real \<Rightarrow> int \<Rightarrow> 'g"
  grid_Add :: "'g \<Rightarrow> Box \<Rightarrow> 'g"
  grid_TestCollision :: "'g \<Rightarrow> Box \<Rightarrow> (Box \<Rightarrow> Box \<Rightarrow> bool) \<Rightarrow> bool"
  newCircle :: "real \<Rightarrow> real \<Rightarrow> real \<Rightarrow> int \<Rightarrow> 'c"
  circle_positions :: "'c \<Rightarrow> point list"
  gg_NewContext :: "int \<Rightarrow> int \<Rightarrow> 'dc"
  gg_SetColor :: "'dc \<Rightarrow> color \<Rightarrow> 'dc"
  gg_Clear :: "'dc \<Rightarrow> 'dc"
  gg_SetRGB :: "'dc \<Rightarrow> real \<Rightarrow> real \<Rightarrow> real \<Rightarrow> 'dc"
  gg_DrawRectangle :: "'dc \<Rightarrow> real \<Rightarrow> real \<Rightarrow> real \<Rightarrow> real \<Rightarrow> 'dc"
  gg_Stroke :: "'dc \<Rightarrow> 'dc"
  gg_SetFontFace :: "'dc \<Rightarrow> 'f \<Rightarrow> 'dc"
  gg_MeasureString :: "'dc \<Rightarrow> string \<Rightarrow> real \<times> real"
  gg_DrawStringAnchored :: "'dc \<Rightarrow> string \<Rightarrow> real \<Rightarrow> real \<Rightarrow> real \<Rightarrow> real \<Rightarrow> 'dc"
  gg_At :: "'dc \<Rightarrow> int \<Rightarrow> int \<Rightarrow> color"
  gg_Width :: "'dc \<Rightarrow> int"
  gg_Height :: "'dc \<Rightarrow> int"
  gg_LoadFontFace :: "string \<Rightarrow> float64 \<Rightarrow> 'f option"
  rand_raw :: "nat \<Rightarrow> nat"
  finish_time :: "nat \<Rightarrow> real \<Rightarrow> nat"
  int_bits :: nat

section \<open>Testing one ring of positions\<close>

text \<open>
  The rectangle of the given width and height centred at \<open>(x, y)\<close>, as \<^verbatim>\<open>testRadius\<close>
  and \<^verbatim>\<open>nextRandom\<close> assign it field by field.
\<close>

definition centredBox :: "real \<Rightarrow> real \<Rightarrow> real \<Rightarrow> real \<Rightarrow> Box" where
  "centredBox x y width height =
     \<lparr>Top = y + height / 2, Left = x - width / 2, Right = x + width / 2, Bottom = y - height / 2\<rparr>"

text \<open>
  A position is available when its rectangle fits the canvas and the grid reports no
  collision; the test of the fit comes first and skips the collision test.
\<close>

definition available ::
  "('g, 'dc, 'c, 'f) collab \<Rightarrow> ('g, 'dc, 'c, 'f) Wordcloud \<Rightarrow> real \<Rightarrow> real \<Rightarrow> real \<Rightarrow> real \<Rightarrow> bool" where
  "available E w x y width height =
     (let box = centredBox x y width height in
      if \<not> box_fits E box (w_width w) (w_height w) then False
      else \<not> grid_TestCollision E (w_grid w) box (\<lambda>a b. box_overlaps E a b))"

text \<open>
  The loop of \<^verbatim>\<open>testRadius\<close>. The variables \<^verbatim>\<open>x\<close> and \<^verbatim>\<open>y\<close> live outside the loop,
  so a failed ring reports the coordinates of its last point.
\<close>

fun testRadius_loop ::
  "('g, 'dc, 'c, 'f) collab \<Rightarrow> ('g, 'dc, 'c, 'f) Wordcloud \<Rightarrow> real \<Rightarrow> point list \<Rightarrow> real \<Rightarrow> real
     \<Rightarrow> real \<Rightarrow> real \<Rightarrow> res" where
  "testRadius_loop E w radius [] width height x y =
     \<lparr>res_radius = radius, res_x = x, res_y = y, res_failed = True\<rparr>"
| "testRadius_loop E w radius (p # points) width height x y =
     (if available E w (px p) (py p) width height
      then \<lparr>res_radius = radius, res_x = px p, res_y = py p, res_failed = False\<rparr>
      else testRadius_loop E w radius points width height (px p) (py p))"

definition testRadius ::
  "('g, 'dc, 'c, 'f) collab \<Rightarrow> ('g, 'dc, 'c, 'f) Wordcloud \<Rightarrow> real \<Rightarrow> point list \<Rightarrow> real \<Rightarrow> real
     \<Rightarrow> res" where
  "testRadius E w radius points width height =
     testRadius_loop E w radius points width height 0 0"

section \<open>Aggregating the results of the workers\<close>

text \<open>
  The maps \<^verbatim>\<open>results\<close> and \<^verbatim>\<open>done\<close> of \<^verbatim>\<open>nextPos\<close>. Reading a Go map at a key it
  does not hold gives the zero value.
\<close>

definition done_at :: "(real \<rightharpoonup> bool) \<Rightarrow> real \<Rightarrow> bool" where
  "done_at done r = (case done r of Some b \<Rightarrow> b | None \<Rightarrow> False)"

definition result_at :: "(real \<rightharpoonup> res) \<Rightarrow> real \<Rightarrow> res" where
  "result_at results r =
     (case results r of Some d \<Rightarrow> d
      | None \<Rightarrow> \<lparr>res_radius = 0, res_x = 0, res_y = 0, res_failed = False\<rparr>)"

text \<open>
  What one pass over \<^verbatim>\<open>w.radii\<close> decides: a return value \<open>(x, y, space)\<close>, or to
  wait for the next result.
\<close>

datatype verdict = Decided real real bool | Waiting

text \<open>
  The inner loop of the aggregation (lines 427 to 445). \<open>x0\<close> and \<open>y0\<close> are the values
  the named results hold, \<^verbatim>\<open>w.width\<close> and \<^verbatim>\<open>w.height\<close>; running off the end of the radii
  leaves \<^verbatim>\<open>failed\<close> true and returns them with \<open>space = false\<close>.
\<close>

fun scanRadii :: "real \<Rightarrow> real \<Rightarrow> (real \<rightharpoonup> res) \<Rightarrow> (real \<rightharpoonup> bool) \<Rightarrow> real list \<Rightarrow> verdict" where
  "scanRadii x0 y0 results done [] = Decided x0 y0 False"
| "scanRadii x0 y0 results done (r # rs) =
     (if \<not> done_at done r then Waiting
      else if \<not> res_failed (result_at results r)
           then Decided (res_x (result_at results r)) (res_y (result_at results r)) True
      else scanRadii x0 y0 results done rs)"

text \<open>
  The loop \<^verbatim>\<open>for d := range aggCh\<close> over the results received, in the order received.
  The channel is never closed: when no further result comes the loop blocks, which is
  \<open>None\<close>.
\<close>

fun aggregate ::
  "real \<Rightarrow> real \<Rightarrow> real list \<Rightarrow> (real \<rightharpoonup> res) \<Rightarrow> (real \<rightharpoonup> bool) \<Rightarrow> res list
     \<Rightarrow> (real \<times> real \<times> bool) option" where
  "aggregate x0 y0 rs results done [] = None"
| "aggregate x0 y0 rs results done (d # ds) =
     (let results' = results(res_radius d \<mapsto> d);
          done' = done(res_radius d \<mapsto> True)
      in case scanRadii x0 y0 results' done' rs of
           Decided x y space \<Rightarrow> Some (x, y, space)
         | Waiting \<Rightarrow> aggregate x0 y0 rs results' done' ds)"

text \<open>The two maps after a sequence of results has been recorded.\<close>

definition recorded_results :: "res list \<Rightarrow> (real \<rightharpoonup> res)" where
  "recorded_results ds = foldl (\<lambda>m d. m(res_radius d \<mapsto> d)) Map.empty ds"

definition recorded_done :: "res list \<Rightarrow> (real \<rightharpoonup> bool)" where
  "recorded_done ds = foldl (\<lambda>m d. m(res_radius d \<mapsto> True)) Map.empty ds"

section \<open>Random placement\<close>

text \<open>
  \<^verbatim>\<open>rand.Intn(n)\<close> on the process-wide source: it panics for \<open>n \<le> 0\<close> and otherwise
  returns a value in \<open>[0, n)\<close>, consuming one raw output.
\<close>

definition Intn ::
  "('g, 'dc, 'c, 'f) collab \<Rightarrow> ('g, 'dc, 'c, 'f) Wordcloud \<Rightarrow> int
     \<Rightarrow> abort + (int \<times> ('g, 'dc, 'c, 'f) Wordcloud)" where
  "Intn E w n =
     (if n \<le> 0 then Inl IntnPanic
      else Inr (int (rand_raw E (rt_rand w)) mod n, w\<lparr>rt_rand := rt_rand w + 1\<rparr>))"

text \<open>
  The loop of \<^verbatim>\<open>nextRandom\<close>. The flag \<^verbatim>\<open>searching\<close> is true at every test of the loop
  condition (it is cleared only on the line before the \<^verbatim>\<open>return\<close>), so the condition is
  \<open>tries < 5000000\<close>; \<open>maxTries\<close> names the bound. The two calls of \<^verbatim>\<open>rand.Intn\<close> run left to right.
\<close>

definition maxTries :: nat where
  "maxTries = 5000000"

function nextRandom_loop ::
  "('g, 'dc, 'c, 'f) collab \<Rightarrow> ('g, 'dc, 'c, 'f) Wordcloud \<Rightarrow> real \<Rightarrow> real \<Rightarrow> nat \<Rightarrow> real \<Rightarrow> real
     \<Rightarrow> abort + ((real \<times> real \<times> bool) \<times> ('g, 'dc, 'c, 'f) Wordcloud)" where
  "nextRandom_loop E w width height tries x y =
     (if tries < maxTries then
        (case Intn E w (gg_Width E (w_dc w)) of
           Inl a \<Rightarrow> Inl a
         | Inr (i, w1) \<Rightarrow>
            (case Intn E w1 (gg_Height E (w_dc w1)) of
               Inl a \<Rightarrow> Inl a
             | Inr (j, w2) \<Rightarrow>
                 if available E w2 (real_of_int i) (real_of_int j) width height
                 then Inr ((real_of_int i, real_of_int j, True), w2)
                 else nextRandom_loop E w2 width height (tries + 1) (real_of_int i) (real_of_int j)))
      else Inr ((x, y, False), w))"
  by pat_completeness auto
termination
  by (relation "measure (\<lambda>(E, w, width, height, tries, x, y). maxTries - tries)") auto

declare nextRandom_loop.simps [simp del]

definition nextRandom ::
  "('g, 'dc, 'c, 'f) collab \<Rightarrow> ('g, 'dc, 'c, 'f) Wordcloud \<Rightarrow> real \<Rightarrow> real
     \<Rightarrow> abort + ((real \<times> real \<times> bool) \<times> ('g, 'dc, 'c, 'f) Wordcloud)" where
  "nextRandom E w width height = nextRandom_loop E w width height 0 0 0"

text \<open>
  The position the \<open>k\<close>-th iteration of the loop draws, counted from 0, when the search
  starts in the state \<open>w\<close>: each iteration consumes two raw outputs.
\<close>

definition drawn ::
  "('g, 'dc, 'c, 'f) collab \<Rightarrow> ('g, 'dc, 'c, 'f) Wordcloud \<Rightarrow> nat \<Rightarrow> real \<times> real" where
  "drawn E w k =
     (real_of_int (int (rand_raw E (rt_rand w + 2 * k)) mod gg_Width E (w_dc w)),
      real_of_int (int (rand_raw E (rt_rand w + 2 * k + 1)) mod gg_Height E (w_dc w)))"

section \<open>The search for the next position\<close>

text \<open>
  The ring of a radius, \<^verbatim>\<open>w.circles[r].positions()\<close>. \<^verbatim>\<open>NewWordcloud\<close> fills
  \<^verbatim>\<open>circles\<close> and \<^verbatim>\<open>radii\<close> together, so every radius has its circle; the model gives
  a radius without a circle the empty ring.
\<close>

definition ring :: "('g, 'dc, 'c, 'f) collab \<Rightarrow> ('g, 'dc, 'c, 'f) Wordcloud \<Rightarrow> real \<Rightarrow> point list" where
  "ring E w r = (case circles w r of Some c \<Rightarrow> circle_positions E c | None \<Rightarrow> [])"

text \<open>
  The results the aggregator receives in one search, if it waits for all of them: the
  dispatcher hands out every radius of \<^verbatim>\<open>w.radii\<close> in turn, a worker answers each with
  \<^verbatim>\<open>testRadius\<close>, which is a finite loop, and the answers arrive in the order of the
  moments the workers finish (in the order of dispatch where two moments are equal).
\<close>

definition received ::
  "('g, 'dc, 'c, 'f) collab \<Rightarrow> ('g, 'dc, 'c, 'f) Wordcloud \<Rightarrow> real \<Rightarrow> real \<Rightarrow> res list" where
  "received E w width height =
     map (\<lambda>r. testRadius E w r (ring E w r) width height)
         (sort_key (finish_time E (rt_search w)) (radii w))"

text \<open>
  \<^verbatim>\<open>nextPos\<close>. The grid is not touched during a search, so the workers are functions of
  the state the search started in. The deferred clean-up changes nothing the caller sees.
\<close>

definition nextPos ::
  "('g, 'dc, 'c, 'f) collab \<Rightarrow> ('g, 'dc, 'c, 'f) Wordcloud \<Rightarrow> real \<Rightarrow> real
     \<Rightarrow> abort + ((real \<times> real \<times> bool) \<times> ('g, 'dc, 'c, 'f) Wordcloud)" where
  "nextPos E w width height =
     (if randomPlacement w then nextRandom E w width height
      else case aggregate (w_width w) (w_height w) (radii w) Map.empty Map.empty
                  (received E w width height) of
             None \<Rightarrow> Inl Deadlock
           | Some xys \<Rightarrow> Inr (xys, w\<lparr>rt_search := rt_search w + 1\<rparr>))"

section \<open>Precise bounding boxes\<close>

text \<open>The conversion \<^verbatim>\<open>int(f)\<close> of a float truncates towards zero.\<close>

definition go_trunc :: "real \<Rightarrow> int" where
  "go_trunc f = (if 0 \<le> f then \<lfloor>f\<rfloor> else \<lceil>f\<rceil>)"

definition defColor :: color where
  "defColor = RGBA 255 255 255 255"

text \<open>The box recorded for the sample at \<open>(i, j)\<close>; \<^verbatim>\<open>step\<close> is 5.\<close>

definition sampleBox :: "int \<Rightarrow> int \<Rightarrow> Box" where
  "sampleBox i j =
     \<lparr>Top = real_of_int (j + 5) + 5, Left = real_of_int i - 5,
      Right = real_of_int (i + 5) + 5, Bottom = real_of_int j - 5\<rparr>"

text \<open>
  The values a loop variable takes in \<^verbatim>\<open>for v := lo; v < hi; v = v + step\<close>, listed for
  the statements about the samples.
\<close>

function steps :: "int \<Rightarrow> int \<Rightarrow> int list" where
  "steps lo hi = (if lo < hi then lo # steps (lo + 5) hi else [])"
  by pat_completeness auto
termination
  by (relation "measure (\<lambda>(lo, hi). nat (hi - lo))") auto

declare steps.simps [simp del]

text \<open>The inner loop, over \<open>j\<close>, and the outer loop, over \<open>i\<close>.\<close>

function precise_column ::
  "(int \<Rightarrow> int \<Rightarrow> color) \<Rightarrow> int \<Rightarrow> int \<Rightarrow> int \<Rightarrow> Box list \<Rightarrow> Box list" where
  "precise_column img i j jtop res =
     (if j < jtop
      then precise_column img i (j + 5) jtop (if img i j \<noteq> defColor then res @ [sampleBox i j] else res)
      else res)"
  by pat_completeness auto
termination
  by (relation "measure (\<lambda>(img, i, j, jtop, res). nat (jtop - j))") auto

declare precise_column.simps [simp del]

function precise_rows ::
  "(int \<Rightarrow> int \<Rightarrow> color) \<Rightarrow> int \<Rightarrow> int \<Rightarrow> int \<Rightarrow> int \<Rightarrow> Box list \<Rightarrow> Box list" where
  "precise_rows img i iright jbottom jtop res =
     (if i < iright
      then precise_rows img (i + 5) iright jbottom jtop (precise_column img i jbottom jtop res)
      else res)"
  by pat_completeness auto
termination
  by (relation "measure (\<lambda>(img, i, iright, jbottom, jtop, res). nat (iright - i))") auto

declare precise_rows.simps [simp del]

definition getPreciseBoundingBoxes ::
  "('g, 'dc, 'c, 'f) collab \<Rightarrow> ('g, 'dc, 'c, 'f) Wordcloud \<Rightarrow> Box \<Rightarrow> Box list" where
  "getPreciseBoundingBoxes E w b =
     precise_rows (gg_At E (w_dc w)) \<lfloor>Left b\<rfloor> (go_trunc (Right b))
       (go_trunc (Bottom b)) (go_trunc (Top b)) []"

section \<open>Placing one word\<close>

text \<open>
  \<^verbatim>\<open>setFont\<close>. A Go map never finds the key not-a-number again, so for such a size the
  face read back on line 234 is nil; \<^verbatim>\<open>dc.SetFontFace\<close> reads the metrics of the face it
  is given, and a nil face panics there.
\<close>

definition setFont ::
  "('g, 'dc, 'c, 'f) collab \<Rightarrow> ('g, 'dc, 'c, 'f) Wordcloud \<Rightarrow> float64
     \<Rightarrow> abort + ('g, 'dc, 'c, 'f) Wordcloud" where
  "setFont E w fsize =
     (let lookup = (\<lambda>m. if fsize = NaN then None else m fsize);
          store = (\<lambda>m f. if fsize = NaN then m else m(fsize \<mapsto> f));
          setFace = (\<lambda>w1. case lookup (fonts w1) of
                             None \<Rightarrow> Inl NilFacePanic
                           | Some f \<Rightarrow> Inr (w1\<lparr>w_dc := gg_SetFontFace E (w_dc w1) f\<rparr>))
      in if lookup (fonts w) = None
         then (case gg_LoadFontFace E (FontFile (opts w)) fsize of
                 None \<Rightarrow> Inl FontLoadPanic
               | Some f \<Rightarrow> setFace (w\<lparr>fonts := store (fonts w) f\<rparr>))
         else setFace w)"

text \<open>
  The arithmetic of the font size. Both operands of the division are conversions of
  integers; a zero divisor gives an infinity or, for \<open>0 / 0\<close>, not a number. A comparison
  with not a number is false.
\<close>

definition fdiv :: "real \<Rightarrow> real \<Rightarrow> float64" where
  "fdiv a b =
     (if b \<noteq> 0 then Finite (a / b)
      else if 0 < a then PosInf else if a < 0 then NegInf else NaN)"

fun fmul :: "real \<Rightarrow> float64 \<Rightarrow> float64" where
  "fmul a (Finite b) = Finite (a * b)"
| "fmul a PosInf = (if 0 < a then PosInf else if a < 0 then NegInf else NaN)"
| "fmul a NegInf = (if 0 < a then NegInf else if a < 0 then PosInf else NaN)"
| "fmul a NaN = NaN"

fun flt :: "float64 \<Rightarrow> real \<Rightarrow> bool" where
  "flt (Finite a) b = (a < b)"
| "flt PosInf b = False"
| "flt NegInf b = True"
| "flt NaN b = False"

text \<open>
  Lines 241 to 245: the size of the font for a word of the given count, where \<open>topCount\<close> is
  \<^verbatim>\<open>w.sortedWordList[0].count\<close>.
\<close>

definition fontSize :: "Options \<Rightarrow> int \<Rightarrow> int \<Rightarrow> float64" where
  "fontSize os cnt topCount =
     (let fsize = fmul (real_of_int (FontMaxSize os)) (fdiv (real_of_int cnt) (real_of_int topCount))
      in if flt fsize (real_of_int (FontMinSize os)) then Finite (real_of_int (FontMinSize os))
         else fsize)"

text \<open>
  Following the words of the specification, for comparison: a linear interpolation
  between the minimum and the maximum font size by the ratio of the count to the top
  count, clamped to the minimum.
\<close>

definition interpolatedSize :: "Options \<Rightarrow> int \<Rightarrow> int \<Rightarrow> real" where
  "interpolatedSize os cnt topCount =
     max (real_of_int (FontMinSize os))
         (real_of_int (FontMinSize os)
          + (real_of_int (FontMaxSize os) - real_of_int (FontMinSize os))
            * (real_of_int cnt / real_of_int topCount))"

text \<open>Lines 257 to 262: the box of a word drawn at \<open>(x, y)\<close>.\<close>

definition placedBox :: "real \<Rightarrow> real \<Rightarrow> real \<Rightarrow> real \<Rightarrow> Box" where
  "placedBox x y width height =
     \<lparr>Top = y + height / 2 + 0.3 * height, Left = x - width / 2, Right = x + width / 2,
      Bottom = max (y - height / 2) 0\<rparr>"

text \<open>Lines 265 to 271: every precise box goes into the grid, and is outlined in debug mode.\<close>

fun addPreciseBoxes ::
  "('g, 'dc, 'c, 'f) collab \<Rightarrow> ('g, 'dc, 'c, 'f) Wordcloud \<Rightarrow> Box list \<Rightarrow> ('g, 'dc, 'c, 'f) Wordcloud" where
  "addPreciseBoxes E w [] = w"
| "addPreciseBoxes E w (pb # pbs) =
     (let w1 = w\<lparr>w_grid := grid_Add E (w_grid w) pb\<rparr>;
          w2 = (if Debug (opts w1)
                then w1\<lparr>w_dc := gg_Stroke E (gg_DrawRectangle E (w_dc w1)
                                    (box_x E pb) (box_y E pb) (box_w E pb) (box_h E pb))\<rparr>
                else w1)
      in addPreciseBoxes E w2 pbs)"

text \<open>Lines 263 to 274: what a placed word registers in the grid.\<close>

definition registerBox ::
  "('g, 'dc, 'c, 'f) collab \<Rightarrow> ('g, 'dc, 'c, 'f) Wordcloud \<Rightarrow> Box \<Rightarrow> real \<Rightarrow> ('g, 'dc, 'c, 'f) Wordcloud" where
  "registerBox E w box height =
     (if 40 < height then addPreciseBoxes E w (getPreciseBoundingBoxes E w box)
      else w\<lparr>w_grid := grid_Add E (w_grid w) box\<rparr>)"

text \<open>
  Lines 238 to 250 of \<^verbatim>\<open>Place\<close>: the colour, the font, and the measured extent of the
  word with its margin of 5. The index into the colours comes from \<^verbatim>\<open>rand.Intn\<close>.
\<close>

definition Place_measure ::
  "('g, 'dc, 'c, 'f) collab \<Rightarrow> ('g, 'dc, 'c, 'f) Wordcloud \<Rightarrow> wordCount
     \<Rightarrow> abort + (real \<times> real \<times> ('g, 'dc, 'c, 'f) Wordcloud)" where
  "Place_measure E w wc =
     (case Intn E w (int (length (Colors (opts w)))) of
        Inl a \<Rightarrow> Inl a
      | Inr (k, w1) \<Rightarrow>
         (let w2 = w1\<lparr>w_dc := gg_SetColor E (w_dc w1) (Colors (opts w1) ! nat k)\<rparr>
          in case sortedWordList w2 of
               [] \<Rightarrow> Inl IndexPanic
             | first # _ \<Rightarrow>
                (case setFont E w2 (fontSize (opts w2) (count wc) (count first)) of
                   Inl a \<Rightarrow> Inl a
                 | Inr w3 \<Rightarrow>
                    (let (mw, mh) = gg_MeasureString E (w_dc w3) (word wc)
                     in Inr (mw + 5, mh + 5, w3)))))"

text \<open>Lines 251 to 275 of \<^verbatim>\<open>Place\<close>: the search, the drawing and the registration.\<close>

definition Place ::
  "('g, 'dc, 'c, 'f) collab \<Rightarrow> ('g, 'dc, 'c, 'f) Wordcloud \<Rightarrow> wordCount
     \<Rightarrow> abort + (bool \<times> ('g, 'dc, 'c, 'f) Wordcloud)" where
  "Place E w wc =
     (case Place_measure E w wc of
        Inl a \<Rightarrow> Inl a
      | Inr (width, height, w3) \<Rightarrow>
         (case nextPos E w3 width height of
            Inl a \<Rightarrow> Inl a
          | Inr ((x, y, space), w4) \<Rightarrow>
              if \<not> space then Inr (False, w4)
              else
                (let w5 = w4\<lparr>w_dc := gg_DrawStringAnchored E (w_dc w4) (word wc) x y 0.5 0.5\<rparr>
                 in Inr (True, registerBox E w5 (placedBox x y width height) height))))"

section \<open>Drawing the cloud\<close>

text \<open>
  The loop of \<^verbatim>\<open>Draw\<close>, with the counter \<^verbatim>\<open>consecutiveMisses\<close>. The function that
  places a word is an argument, so that the loop can be studied for any outcome of the
  placements; \<^verbatim>\<open>Draw\<close> runs it with \<^verbatim>\<open>Place\<close>. The image \<^verbatim>\<open>Draw\<close> returns is the one of
  the context \<open>w_dc\<close> of the object it leaves behind.
\<close>

fun Draw_loop ::
  "('s \<Rightarrow> wordCount \<Rightarrow> abort + (bool \<times> 's)) \<Rightarrow> 's \<Rightarrow> nat \<Rightarrow> wordCount list \<Rightarrow> abort + 's" where
  "Draw_loop place w consecutiveMisses [] = Inr w"
| "Draw_loop place w consecutiveMisses (wc # wcs) =
     (case place w wc of
        Inl a \<Rightarrow> Inl a
      | Inr (success, w') \<Rightarrow>
          if \<not> success
          then (if consecutiveMisses + 1 > 10 then Inr w'
                else Draw_loop place w' (consecutiveMisses + 1) wcs)
          else Draw_loop place w' 0 wcs)"

text \<open>
  For the statements about the loop: the placements of a list of words one after another
  with no cap on the misses, giving the outcomes in order and the object left behind; and
  the value of the counter after a list of outcomes, which a miss increments and a
  success resets.
\<close>

fun place_all ::
  "('s \<Rightarrow> wordCount \<Rightarrow> abort + (bool \<times> 's)) \<Rightarrow> 's \<Rightarrow> wordCount list \<Rightarrow> abort + (bool list \<times> 's)" where
  "place_all place w [] = Inr ([], w)"
| "place_all place w (wc # wcs) =
     (case place w wc of
        Inl a \<Rightarrow> Inl a
      | Inr (success, w') \<Rightarrow>
          (case place_all place w' wcs of
             Inl a \<Rightarrow> Inl a
           | Inr (bs, w'') \<Rightarrow> Inr (success # bs, w'')))"

definition misses_after :: "nat \<Rightarrow> bool list \<Rightarrow> nat" where
  "misses_after m bs = foldl (\<lambda>k success. if success then 0 else k + 1) m bs"

definition Draw ::
  "('g, 'dc, 'c, 'f) collab \<Rightarrow> ('g, 'dc, 'c, 'f) Wordcloud \<Rightarrow> abort + ('g, 'dc, 'c, 'f) Wordcloud" where
  "Draw E w = Draw_loop (Place E) w 0 (sortedWordList w)"

text \<open>
  The conditions under which a run meets no panic and no blocked search. Drawing on a gg
  context does not change its size, which \<open>canvas_size_kept\<close> states for the operations
  used between two searches. A cloud is \<open>runnable\<close> when its palette is not empty, every
  font size loads from its font file, the count of its first word is not zero (so that no
  font size is not a number), and its search can answer: in random mode the canvas has a
  positive width and height, in the concurrent mode there is at least one radius and
  every radius has its circle.
\<close>

definition canvas_size_kept :: "('g, 'dc, 'c, 'f) collab \<Rightarrow> bool" where
  "canvas_size_kept E \<longleftrightarrow>
     (\<forall>d c. gg_Width E (gg_SetColor E d c) = gg_Width E d
          \<and> gg_Height E (gg_SetColor E d c) = gg_Height E d)
   \<and> (\<forall>d f. gg_Width E (gg_SetFontFace E d f) = gg_Width E d
          \<and> gg_Height E (gg_SetFontFace E d f) = gg_Height E d)
   \<and> (\<forall>d s x y ax ay. gg_Width E (gg_DrawStringAnchored E d s x y ax ay) = gg_Width E d
          \<and> gg_Height E (gg_DrawStringAnchored E d s x y ax ay) = gg_Height E d)
   \<and> (\<forall>d x y bw bh. gg_Width E (gg_DrawRectangle E d x y bw bh) = gg_Width E d
          \<and> gg_Height E (gg_DrawRectangle E d x y bw bh) = gg_Height E d)
   \<and> (\<forall>d. gg_Width E (gg_Stroke E d) = gg_Width E d
          \<and> gg_Height E (gg_Stroke E d) = gg_Height E d)"

definition runnable :: "('g, 'dc, 'c, 'f) collab \<Rightarrow> ('g, 'dc, 'c, 'f) Wordcloud \<Rightarrow> bool" where
  "runnable E w \<longleftrightarrow>
     Colors (opts w) \<noteq> []
   \<and> (\<forall>fsize. gg_LoadFontFace E (FontFile (opts w)) fsize \<noteq> None)
   \<and> (\<forall>first rest. sortedWordList w = first # rest \<longrightarrow> count first \<noteq> 0)
   \<and> (if randomPlacement w
        then canvas_size_kept E \<and> 0 < gg_Width E (w_dc w) \<and> 0 < gg_Height E (w_dc w)
        else radii w \<noteq> [] \<and> set (radii w) \<subseteq> dom (circles w))"

section \<open>Building the cloud\<close>

definition defaultOptions :: Options where
  "defaultOptions =
     \<lparr>FontMaxSize = 500, FontMinSize = 10, RandomPlacement = False, FontFile = [],
      Colors = [RGBA 0 0 0 0], BackgroundColor = RGBA 255 255 255 255,
      Width = 2048, Height = 2048, Mask = [], Debug = False\<rparr>"

text \<open>The option setters; the suffix keeps them apart from the fields they set.\<close>

definition FontFile_opt :: "string \<Rightarrow> Options \<Rightarrow> Options" where
  "FontFile_opt path options = options\<lparr>FontFile := path\<rparr>"

definition BackgroundColor_opt :: "color \<Rightarrow> Options \<Rightarrow> Options" where
  "BackgroundColor_opt c options = options\<lparr>BackgroundColor := c\<rparr>"

definition Colors_opt :: "color list \<Rightarrow> Options \<Rightarrow> Options" where
  "Colors_opt colors options = options\<lparr>Colors := colors\<rparr>"

definition FontMaxSize_opt :: "int \<Rightarrow> Options \<Rightarrow> Options" where
  "FontMaxSize_opt m options = options\<lparr>FontMaxSize := m\<rparr>"

definition FontMinSize_opt :: "int \<Rightarrow> Options \<Rightarrow> Options" where
  "FontMinSize_opt m options = options\<lparr>FontMinSize := m\<rparr>"

definition MaskBoxes_opt :: "Box list \<Rightarrow> Options \<Rightarrow> Options" where
  "MaskBoxes_opt boxes options = options\<lparr>Mask := boxes\<rparr>"

definition Width_opt :: "int \<Rightarrow> Options \<Rightarrow> Options" where
  "Width_opt n options = options\<lparr>Width := n\<rparr>"

definition Height_opt :: "int \<Rightarrow> Options \<Rightarrow> Options" where
  "Height_opt n options = options\<lparr>Height := n\<rparr>"

definition RandomPlacement_opt :: "bool \<Rightarrow> Options \<Rightarrow> Options" where
  "RandomPlacement_opt b options = options\<lparr>RandomPlacement := b\<rparr>"

definition Debug_opt :: "Options \<Rightarrow> Options" where
  "Debug_opt options = options\<lparr>Debug := True\<rparr>"

text \<open>Integer division in Go truncates towards zero.\<close>

definition go_quot :: "int \<Rightarrow> int \<Rightarrow> int" where
  "go_quot a b = sgn a * sgn b * (\<bar>a\<bar> div \<bar>b\<bar>)"

text \<open>\<^verbatim>\<open>strings.Trim(word, " ")\<close>: the spaces at both ends are removed.\<close>

definition trimSpaces :: "string \<Rightarrow> string" where
  "trimSpaces s =
     rev (dropWhile (\<lambda>c. c = CHR '' '') (rev (dropWhile (\<lambda>c. c = CHR '' '') s)))"

text \<open>
  Lines 153 to 159. \<^verbatim>\<open>sort.Slice\<close> orders the entries by descending count and promises
  nothing about entries of equal count; the model keeps them in the order of the
  frequency map.
\<close>

definition sortWordList :: "(string \<times> int) list \<Rightarrow> wordCount list" where
  "sortWordList wl =
     sort_key (\<lambda>wc. - count wc) (map (\<lambda>(s, n). \<lparr>word = trimSpaces s, count = n\<rparr>) wl)"

text \<open>Lines 167 to 173: the masks go into the grid, outlined in debug mode.\<close>

fun addMasks ::
  "('g, 'dc, 'c, 'f) collab \<Rightarrow> Options \<Rightarrow> 'dc \<Rightarrow> 'g \<Rightarrow> Box list \<Rightarrow> 'dc \<times> 'g" where
  "addMasks E os d g [] = (d, g)"
| "addMasks E os d g (b # bs) =
     (let d1 = (if Debug os
                then gg_Stroke E (gg_DrawRectangle E d (box_x E b) (box_y E b) (box_w E b) (box_h E b))
                else d)
      in addMasks E os d1 (grid_Add E g b) bs)"

text \<open>
  The value of an integer expression in Go's \<^verbatim>\<open>int\<close> of the given size: the arithmetic
  wraps around in two's complement. \<^verbatim>\<open>math.Sqrt\<close> of a negative number is not a number,
  which is \<open>None\<close>; a comparison with it is false.
\<close>

definition go_int :: "nat \<Rightarrow> int \<Rightarrow> int" where
  "go_int bits n = (n + 2 ^ bits div 2) mod 2 ^ bits - 2 ^ bits div 2"

definition go_sqrt :: "real \<Rightarrow> real option" where
  "go_sqrt v = (if v < 0 then None else Some (sqrt v))"

definition maxRadius :: "('g, 'dc, 'c, 'f) collab \<Rightarrow> Options \<Rightarrow> real option" where
  "maxRadius E os =
     go_sqrt (real_of_int (go_int (int_bits E) (Width os * Width os + Height os * Height os)))"

text \<open>Lines 179 to 183: the radii and their circles.\<close>

function radii_loop ::
  "('g, 'dc, 'c, 'f) collab \<Rightarrow> Options \<Rightarrow> real \<Rightarrow> real option \<Rightarrow> (real \<rightharpoonup> 'c) \<Rightarrow> real list
     \<Rightarrow> (real \<rightharpoonup> 'c) \<times> real list" where
  "radii_loop E os radius maxR cs rs =
     (if (case maxR of None \<Rightarrow> False | Some m \<Rightarrow> radius < m)
      then radii_loop E os (radius + 5) maxR
             (cs(radius \<mapsto> newCircle E (real_of_int (go_quot (Width os) 2))
                                        (real_of_int (go_quot (Height os) 2)) radius 512))
             (rs @ [radius])
      else (cs, rs))"
  by pat_completeness auto
termination
proof (relation "measure (\<lambda>(E, os, radius, maxR, cs, rs).
                   case maxR of None \<Rightarrow> 0 | Some m \<Rightarrow> nat \<lceil>m - radius\<rceil>)", goal_cases)
  case 1
  show ?case by simp
next
  case (2 E os radius maxR cs rs)
  then obtain m where m: "maxR = Some m" "radius < m" by (cases maxR) auto
  then have "\<lceil>m - (radius + 5)\<rceil> = \<lceil>m - radius\<rceil> - 5" and "0 < \<lceil>m - radius\<rceil>"
    by (simp_all add: algebra_simps ceiling_diff_numeral [symmetric])
  with m show ?case by simp
qed

declare radii_loop.simps [simp del]

definition NewWordcloud ::
  "('g, 'dc, 'c, 'f) collab \<Rightarrow> (string \<times> int) list \<Rightarrow> (Options \<Rightarrow> Options) list
     \<Rightarrow> ('g, 'dc, 'c, 'f) Wordcloud" where
  "NewWordcloud E wl options =
     (let os = foldl (\<lambda>acc opt. opt acc) defaultOptions options;
          d0 = gg_SetRGB E (gg_Clear E (gg_SetColor E (gg_NewContext E (Width os) (Height os))
                                          (BackgroundColor os))) 0 0 0;
          g0 = newSpatialHashMap E (real_of_int (Width os)) (real_of_int (Height os))
                 (go_quot (Height os) 10);
          (d, g) = addMasks E os d0 g0 (Mask os);
          (cs, rs) = radii_loop E os 1 (maxRadius E os) Map.empty []
      in \<lparr>wordList = wl, sortedWordList = sortWordList wl, w_grid = g, w_dc = d,
          randomPlacement = RandomPlacement os,
          w_width = real_of_int (Width os), w_height = real_of_int (Height os),
          opts = os, circles = cs, fonts = Map.empty, radii = rs,
          rt_rand = 0, rt_search = 0\<rparr>)"

section \<open>Reference collaborators\<close>

text \<open>
  One concrete set of collaborators, on which the theorems below are exercised. The grid
  is the list of the boxes inserted, a circle has four points, a font face is its size,
  the canvas keeps its pixels, and the workers of the larger radii finish first.
\<close>

text \<open>
  Modelled from the spec: the methods \<^verbatim>\<open>fits\<close> and \<^verbatim>\<open>overlaps\<close> of \<^verbatim>\<open>Box\<close> are declared
  outside \<^verbatim>\<open>wordcloud.go\<close>; a box fits a canvas that contains it, and two boxes overlap
  when their intervals intersect strictly on both axes.
\<close>

definition ref_fits :: "Box \<Rightarrow> real \<Rightarrow> real \<Rightarrow> bool" where
  "ref_fits b cw ch = (0 \<le> Left b \<and> Right b < cw \<and> 0 \<le> Bottom b \<and> Top b < ch)"

definition ref_overlaps :: "Box \<Rightarrow> Box \<Rightarrow> bool" where
  "ref_overlaps a b =
     (Left a < Right b \<and> Left b < Right a \<and> Bottom a < Top b \<and> Bottom b < Top a)"

record canvas =
  cv_width :: int
  cv_height :: int
  cv_pen :: color
  cv_face :: "float64 option"
  cv_path :: "(real \<times> real) option"
  cv_pixels :: "int \<Rightarrow> int \<Rightarrow> color"

text \<open>Painting colours the block of five by five pixels around \<open>(i, j)\<close> with the pen.\<close>

definition cv_paint :: "canvas \<Rightarrow> int \<Rightarrow> int \<Rightarrow> canvas" where
  "cv_paint d i j =
     d\<lparr>cv_pixels := (\<lambda>a b. if \<bar>a - i\<bar> \<le> 2 \<and> \<bar>b - j\<bar> \<le> 2 then cv_pen d else cv_pixels d a b)\<rparr>"

definition ref_circle :: "real \<Rightarrow> real \<Rightarrow> real \<Rightarrow> int \<Rightarrow> point list" where
  "ref_circle cx cy r n =
     [\<lparr>px = cx + r, py = cy\<rparr>, \<lparr>px = cx, py = cy + r\<rparr>,
      \<lparr>px = cx - r, py = cy\<rparr>, \<lparr>px = cx, py = cy - r\<rparr>]"

definition ref_measure :: "canvas \<Rightarrow> string \<Rightarrow> real \<times> real" where
  "ref_measure d s =
     (case cv_face d of
        Some (Finite h) \<Rightarrow> (h * real (length s) / 2, h)
      | _ \<Rightarrow> (0, 0))"

definition ref_collab :: "(Box list, canvas, point list, float64) collab" where
  "ref_collab =
     \<lparr>box_fits = ref_fits,
      box_overlaps = ref_overlaps,
      box_x = Left,
      box_y = Bottom,
      box_w = (\<lambda>b. Right b - Left b),
      box_h = (\<lambda>b. Top b - Bottom b),
      newSpatialHashMap = (\<lambda>cw ch cell. []),
      grid_Add = (\<lambda>g b. g @ [b]),
      grid_TestCollision = (\<lambda>g b f. list_ex (f b) g),
      newCircle = ref_circle,
      circle_positions = (\<lambda>c. c),
      gg_NewContext = (\<lambda>cw ch. \<lparr>cv_width = cw, cv_height = ch, cv_pen = RGBA 0 0 0 0,
                                  cv_face = None, cv_path = None,
                                  cv_pixels = (\<lambda>i j. RGBA 0 0 0 0)\<rparr>),
      gg_SetColor = (\<lambda>d c. d\<lparr>cv_pen := c\<rparr>),
      gg_Clear = (\<lambda>d. d\<lparr>cv_pixels := (\<lambda>i j. cv_pen d)\<rparr>),
      gg_SetRGB = (\<lambda>d r g b. d\<lparr>cv_pen := RGBA (word_of_int \<lfloor>r * 255\<rfloor>) (word_of_int \<lfloor>g * 255\<rfloor>)
                                               (word_of_int \<lfloor>b * 255\<rfloor>) 255\<rparr>),
      gg_DrawRectangle = (\<lambda>d x y bw bh. d\<lparr>cv_path := Some (x, y)\<rparr>),
      gg_Stroke = (\<lambda>d. case cv_path d of
                           None \<Rightarrow> d
                         | Some (x, y) \<Rightarrow> (cv_paint d \<lfloor>x\<rfloor> \<lfloor>y\<rfloor>)\<lparr>cv_path := None\<rparr>),
      gg_SetFontFace = (\<lambda>d f. d\<lparr>cv_face := Some f\<rparr>),
      gg_MeasureString = ref_measure,
      gg_DrawStringAnchored = (\<lambda>d s x y ax ay. if s = [] then d else cv_paint d \<lfloor>x\<rfloor> \<lfloor>y\<rfloor>),
      gg_At = cv_pixels,
      gg_Width = cv_width,
      gg_Height = cv_height,
      gg_LoadFontFace = (\<lambda>path fsize. if path = ''missing.ttf'' then None else Some fsize),
      rand_raw = (\<lambda>k. 7 * k + 3),
      finish_time = (\<lambda>k r. nat \<lfloor>100 - r\<rfloor>),
      int_bits = 64\<rparr>"

text \<open>A cloud of 60 by 80 pixels with fonts from 4 to 40, for a given frequency map.\<close>

definition ref_options :: "(Options \<Rightarrow> Options) list" where
  "ref_options = [Width_opt 60, Height_opt 80, FontMaxSize_opt 40, FontMinSize_opt 4]"

definition ref_cloud :: "(string \<times> int) list \<Rightarrow> (Box list, canvas, point list, float64) Wordcloud" where
  "ref_cloud wl = NewWordcloud ref_collab wl ref_options"

text \<open>
  The same cloud in random-placement mode, with one mask from \<open>(10, 10)\<close> to
  \<open>(30, 30)\<close>.
\<close>

definition ref_masked_cloud :: "(Box list, canvas, point list, float64) Wordcloud" where
  "ref_masked_cloud =
     NewWordcloud ref_collab []
       (ref_options @ [MaskBoxes_opt [\<lparr>Top = 30, Left = 10, Right = 30, Bottom = 10\<rparr>],
                       RandomPlacement_opt True])"

text \<open>
  A cloud on a black background, on which a word has been drawn in white at \<open>(7, 2)\<close>.
\<close>

definition ref_dark_cloud :: "(Box list, canvas, point list, float64) Wordcloud" where
  "ref_dark_cloud =
     (NewWordcloud ref_collab [] [BackgroundColor_opt (RGBA 0 0 0 255)])
       \<lparr>w_dc := gg_DrawStringAnchored ref_collab
                  (gg_SetColor ref_collab
                     (w_dc (NewWordcloud ref_collab [] [BackgroundColor_opt (RGBA 0 0 0 255)]))
                     (RGBA 255 255 255 255))
                  ''a'' 7 2 0.5 0.5\<rparr>"

text \<open>
  A frequency map with one short word of count 2 and twelve long words of count 1, and
  the states of its cloud that differ from the initial one in the grid, the canvas, the
  fonts and the counters only.
\<close>

definition ref_words :: "(string \<times> int) list" where
  "ref_words =
     [(''a'', 2), (''cloud-0001'', 1), (''cloud-0002'', 1), (''cloud-0003'', 1),
      (''cloud-0004'', 1), (''cloud-0005'', 1), (''cloud-0006'', 1), (''cloud-0007'', 1),
      (''cloud-0008'', 1), (''cloud-0009'', 1), (''cloud-0010'', 1), (''cloud-0011'', 1),
      (''cloud-0012'', 1)]"

definition ref_ready :: "(Box list, canvas, point list, float64) Wordcloud \<Rightarrow> bool" where
  "ref_ready w \<longleftrightarrow>
     opts w = opts (ref_cloud []) \<and> radii w = radii (ref_cloud [])
     \<and> circles w = circles (ref_cloud []) \<and> w_width w = 60 \<and> w_height w = 80
     \<and> \<not> randomPlacement w \<and> fonts w \<subseteq>\<^sub>m [Finite 20 \<mapsto> Finite 20, Finite 40 \<mapsto> Finite 40]"

section \<open>The reference cloud\<close>

lemma ref_opts:
  "foldl (\<lambda>acc opt. opt acc) defaultOptions ref_options =
     defaultOptions\<lparr>Width := 60, Height := 80, FontMaxSize := 40, FontMinSize := 4\<rparr>"
  by (simp add: ref_options_def Width_opt_def Height_opt_def FontMaxSize_opt_def
      FontMinSize_opt_def defaultOptions_def)

lemma ref_cloud_canvas:
  "w_width (ref_cloud wl) = 60" "w_height (ref_cloud wl) = 80" "w_grid (ref_cloud wl) = []"
  unfolding ref_cloud_def NewWordcloud_def ref_opts
  by (simp_all add: Let_def split_beta defaultOptions_def ref_collab_def)

section \<open>Properties of the ring test\<close>

lemma testRadius_loop_radius:
  "res_radius (testRadius_loop E w radius points width height x y) = radius"
  by (induction points arbitrary: x y) simp_all

lemma testRadius_loop_find:
  "testRadius_loop E w radius points width height x y =
     (case find (\<lambda>p. available E w (px p) (py p) width height) points of
        Some p \<Rightarrow> \<lparr>res_radius = radius, res_x = px p, res_y = py p, res_failed = False\<rparr>
      | None \<Rightarrow> \<lparr>res_radius = radius,
                 res_x = (if points = [] then x else px (last points)),
                 res_y = (if points = [] then y else py (last points)),
                 res_failed = True\<rparr>)"
proof (induction points arbitrary: x y)
  case Nil
  show ?case by simp
next
  case (Cons p points)
  show ?case
  proof (cases "available E w (px p) (py p) width height")
    case True
    then show ?thesis by simp
  next
    case False
    then show ?thesis
      using Cons.IH [of "px p" "py p"] by (cases points) (simp_all split: option.splits)
  qed
qed

lemma testRadius_loop_prefix:
  "\<not> res_failed (testRadius_loop E w radius ps width height x y) \<Longrightarrow>
   testRadius_loop E w radius (ps @ qs) width height x y =
   testRadius_loop E w radius ps width height x y"
proof (induction ps arbitrary: x y)
  case Nil
  then show ?case by simp
next
  case (Cons p ps)
  show ?case
  proof (cases "available E w (px p) (py p) width height")
    case True
    then show ?thesis by simp
  next
    case False
    with Cons.prems have "\<not> res_failed (testRadius_loop E w radius ps width height (px p) (py p))"
      by simp
    from Cons.IH [OF this] False show ?thesis by simp
  qed
qed

text \<open>
  C2. \<^verbatim>\<open>testRadius\<close> returns the first point of the ring, in the order of the ring, whose
  centred rectangle fits the canvas and does not collide in the grid (under the overlap
  test of the boxes), with \<open>failed = false\<close> and the radius it was given; when no point
  of the ring qualifies it returns \<open>failed = true\<close> for that radius (with the coordinates
  of the last point tested, or zero for an empty ring). Once a ring has a hit, the points
  that follow play no part in the result.
\<close>

theorem testRadius_first_available:
  "(let free = (\<lambda>p. box_fits E \<lparr>Top = py p + height / 2, Left = px p - width / 2,
                                 Right = px p + width / 2, Bottom = py p - height / 2\<rparr>
                         (w_width w) (w_height w)
                     \<and> \<not> grid_TestCollision E (w_grid w)
                           \<lparr>Top = py p + height / 2, Left = px p - width / 2,
                            Right = px p + width / 2, Bottom = py p - height / 2\<rparr>
                           (box_overlaps E))
    in testRadius E w radius points width height =
         (case find free points of
            Some p \<Rightarrow> \<lparr>res_radius = radius, res_x = px p, res_y = py p, res_failed = False\<rparr>
          | None \<Rightarrow> \<lparr>res_radius = radius,
                     res_x = (if points = [] then 0 else px (last points)),
                     res_y = (if points = [] then 0 else py (last points)),
                     res_failed = True\<rparr>)
       \<and> (\<not> res_failed (testRadius E w radius points width height) \<longrightarrow>
            (\<forall>later. testRadius E w radius (points @ later) width height =
                     testRadius E w radius points width height)))"
proof -
  have "(\<lambda>p. box_fits E \<lparr>Top = py p + height / 2, Left = px p - width / 2,
                        Right = px p + width / 2, Bottom = py p - height / 2\<rparr>
                (w_width w) (w_height w)
            \<and> \<not> grid_TestCollision E (w_grid w)
                  \<lparr>Top = py p + height / 2, Left = px p - width / 2,
                   Right = px p + width / 2, Bottom = py p - height / 2\<rparr>
                  (box_overlaps E))
        = (\<lambda>p. available E w (px p) (py p) width height)"
    by (rule ext) (simp add: available_def centredBox_def Let_def)
  note eq = this
  have a: "testRadius E w radius points width height =
         (case find (\<lambda>p. available E w (px p) (py p) width height) points of
            Some p \<Rightarrow> \<lparr>res_radius = radius, res_x = px p, res_y = py p, res_failed = False\<rparr>
          | None \<Rightarrow> \<lparr>res_radius = radius,
                     res_x = (if points = [] then 0 else px (last points)),
                     res_y = (if points = [] then 0 else py (last points)),
                     res_failed = True\<rparr>)"
    unfolding testRadius_def by (rule testRadius_loop_find)
  have b: "testRadius E w radius (points @ later) width height =
           testRadius E w radius points width height"
    if "\<not> res_failed (testRadius E w radius points width height)" for later
    using that unfolding testRadius_def by (rule testRadius_loop_prefix)
  show ?thesis
    unfolding Let_def eq
  proof (intro conjI impI allI)
    show "testRadius E w radius points width height =
         (case find (\<lambda>p. available E w (px p) (py p) width height) points of
            None \<Rightarrow> \<lparr>res_radius = radius,
                     res_x = (if points = [] then 0 else px (last points)),
                     res_y = (if points = [] then 0 else py (last points)),
                     res_failed = True\<rparr>
          | Some p \<Rightarrow> \<lparr>res_radius = radius, res_x = px p, res_y = py p, res_failed = False\<rparr>)"
      by (rule a)
  next
    fix later
    assume "\<not> res_failed (testRadius E w radius points width height)"
    then show "testRadius E w radius (points @ later) width height =
           testRadius E w radius points width height"
      by (rule b)
  qed
qed

lemma ref_masked_cloud_fields:
  "w_width ref_masked_cloud = 60" "w_height ref_masked_cloud = 80"
  "w_grid ref_masked_cloud = [\<lparr>Top = 30, Left = 10, Right = 30, Bottom = 10\<rparr>]"
  "randomPlacement ref_masked_cloud" "rt_rand ref_masked_cloud = 0"
  "w_dc ref_masked_cloud =
     \<lparr>cv_width = 60, cv_height = 80, cv_pen = RGBA 0 0 0 255, cv_face = None, cv_path = None,
      cv_pixels = (\<lambda>i j. RGBA 255 255 255 255)\<rparr>"
proof -
  have o: "foldl (\<lambda>acc opt. opt acc) defaultOptions
             (ref_options @ [MaskBoxes_opt [\<lparr>Top = 30, Left = 10, Right = 30, Bottom = 10\<rparr>],
                             RandomPlacement_opt True]) =
           defaultOptions\<lparr>Width := 60, Height := 80, FontMaxSize := 40, FontMinSize := 4,
             Mask := [\<lparr>Top = 30, Left = 10, Right = 30, Bottom = 10\<rparr>], RandomPlacement := True\<rparr>"
    by (simp add: ref_opts MaskBoxes_opt_def RandomPlacement_opt_def)
  show "w_width ref_masked_cloud = 60" "w_height ref_masked_cloud = 80"
    "w_grid ref_masked_cloud = [\<lparr>Top = 30, Left = 10, Right = 30, Bottom = 10\<rparr>]"
    "randomPlacement ref_masked_cloud" "rt_rand ref_masked_cloud = 0"
    "w_dc ref_masked_cloud =
     \<lparr>cv_width = 60, cv_height = 80, cv_pen = RGBA 0 0 0 255, cv_face = None, cv_path = None,
      cv_pixels = (\<lambda>i j. RGBA 255 255 255 255)\<rparr>"
    unfolding ref_masked_cloud_def NewWordcloud_def o
    by (simp_all add: Let_def split_beta defaultOptions_def ref_collab_def)
qed

text \<open>
  On the masked cloud, for a rectangle of 9 by 9: the first point is off the canvas, the
  second collides with the mask, the third is free and is returned; a fourth point that
  would be free as well is not looked at.
\<close>

theorem testRadius_first_available_witness:
  "\<not> box_fits ref_collab \<lparr>Top = 40 + 9 / 2, Left = 58 - 9 / 2, Right = 58 + 9 / 2, Bottom = 40 - 9 / 2\<rparr>
         (w_width ref_masked_cloud) (w_height ref_masked_cloud)
   \<and> box_fits ref_collab \<lparr>Top = 25 + 9 / 2, Left = 25 - 9 / 2, Right = 25 + 9 / 2, Bottom = 25 - 9 / 2\<rparr>
         (w_width ref_masked_cloud) (w_height ref_masked_cloud)
   \<and> grid_TestCollision ref_collab (w_grid ref_masked_cloud)
         \<lparr>Top = 25 + 9 / 2, Left = 25 - 9 / 2, Right = 25 + 9 / 2, Bottom = 25 - 9 / 2\<rparr>
         (box_overlaps ref_collab)
   \<and> testRadius ref_collab ref_masked_cloud 21
       [\<lparr>px = 58, py = 40\<rparr>, \<lparr>px = 25, py = 25\<rparr>, \<lparr>px = 40, py = 40\<rparr>] 9 9 =
     \<lparr>res_radius = 21, res_x = 40, res_y = 40, res_failed = False\<rparr>
   \<and> testRadius ref_collab ref_masked_cloud 21
       ([\<lparr>px = 58, py = 40\<rparr>, \<lparr>px = 25, py = 25\<rparr>, \<lparr>px = 40, py = 40\<rparr>] @ [\<lparr>px = 45, py = 45\<rparr>]) 9 9 =
     testRadius ref_collab ref_masked_cloud 21
       [\<lparr>px = 58, py = 40\<rparr>, \<lparr>px = 25, py = 25\<rparr>, \<lparr>px = 40, py = 40\<rparr>] 9 9"
proof -
  have t: "box_fits ref_collab b cw ch = ref_fits b cw ch"
    "grid_TestCollision ref_collab g b (box_overlaps ref_collab) = list_ex (ref_overlaps b) g" for b cw ch g
    by (simp_all add: ref_collab_def)
  from testRadius_first_available [of ref_collab 9 9 ref_masked_cloud 21
          "[\<lparr>px = 58, py = 40\<rparr>, \<lparr>px = 25, py = 25\<rparr>, \<lparr>px = 40, py = 40\<rparr>]"]
  show ?thesis
    unfolding Let_def t ref_masked_cloud_fields
    by (simp add: ref_fits_def ref_overlaps_def)
qed

section \<open>Properties of the aggregation\<close>

lemma scanRadii_success:
  "scanRadii x0 y0 results done rs = Decided x y True \<Longrightarrow>
   \<exists>pre r post. rs = pre @ r # post
     \<and> (\<forall>q\<in>set pre. done_at done q \<and> res_failed (result_at results q))
     \<and> done_at done r \<and> \<not> res_failed (result_at results r)
     \<and> x = res_x (result_at results r) \<and> y = res_y (result_at results r)"
proof (induction rs)
  case Nil
  then show ?case by simp
next
  case (Cons a rs)
  show ?case
  proof (cases "done_at done a \<and> res_failed (result_at results a)")
    case True
    with Cons.prems have "scanRadii x0 y0 results done rs = Decided x y True" by simp
    from Cons.IH [OF this] obtain pre r post where
      "rs = pre @ r # post"
      "\<forall>q\<in>set pre. done_at done q \<and> res_failed (result_at results q)"
      "done_at done r" "\<not> res_failed (result_at results r)"
      "x = res_x (result_at results r)" "y = res_y (result_at results r)"
      by blast
    with True have "a # rs = (a # pre) @ r # post
      \<and> (\<forall>q\<in>set (a # pre). done_at done q \<and> res_failed (result_at results q))
      \<and> done_at done r \<and> \<not> res_failed (result_at results r)
      \<and> x = res_x (result_at results r) \<and> y = res_y (result_at results r)"
      by simp
    then show ?thesis by blast
  next
    case False
    with Cons.prems have "done_at done a" "\<not> res_failed (result_at results a)"
      "x = res_x (result_at results a)" "y = res_y (result_at results a)"
      by (auto split: if_splits)
    then have "a # rs = [] @ a # rs
      \<and> (\<forall>q\<in>set []. done_at done q \<and> res_failed (result_at results q))
      \<and> done_at done a \<and> \<not> res_failed (result_at results a)
      \<and> x = res_x (result_at results a) \<and> y = res_y (result_at results a)"
      by simp
    then show ?thesis by blast
  qed
qed

lemma aggregate_decides:
  "aggregate x0 y0 rs results dn ds = Some (x, y, space) \<Longrightarrow>
   \<exists>n\<le>length ds. 0 < n \<and>
     scanRadii x0 y0 (foldl (\<lambda>m d. m(res_radius d \<mapsto> d)) results (take n ds))
                     (foldl (\<lambda>m d. m(res_radius d \<mapsto> True)) dn (take n ds)) rs
       = Decided x y space"
proof (induction ds arbitrary: results dn)
  case Nil
  then show ?case by simp
next
  case (Cons d ds)
  let ?r = "results(res_radius d \<mapsto> d)" and ?dn = "dn(res_radius d \<mapsto> True)"
  show ?case
  proof (cases "scanRadii x0 y0 ?r ?dn rs")
    case (Decided a b c)
    with Cons.prems have "a = x" "b = y" "c = space" by (simp_all add: Let_def)
    with Decided have "1 \<le> length (d # ds) \<and> (0::nat) < 1 \<and>
      scanRadii x0 y0 (foldl (\<lambda>m d. m(res_radius d \<mapsto> d)) results (take 1 (d # ds)))
                     (foldl (\<lambda>m d. m(res_radius d \<mapsto> True)) dn (take 1 (d # ds))) rs
       = Decided x y space" by simp
    then show ?thesis by blast
  next
    case Waiting
    with Cons.prems have "aggregate x0 y0 rs ?r ?dn ds = Some (x, y, space)"
      by (simp add: Let_def)
    from Cons.IH [OF this] obtain n where "n \<le> length ds" "0 < n"
      "scanRadii x0 y0 (foldl (\<lambda>m d. m(res_radius d \<mapsto> d)) ?r (take n ds))
                     (foldl (\<lambda>m d. m(res_radius d \<mapsto> True)) ?dn (take n ds)) rs
       = Decided x y space" by blast
    then have "Suc n \<le> length (d # ds) \<and> 0 < Suc n \<and>
      scanRadii x0 y0 (foldl (\<lambda>m d. m(res_radius d \<mapsto> d)) results (take (Suc n) (d # ds)))
                     (foldl (\<lambda>m d. m(res_radius d \<mapsto> True)) dn (take (Suc n) (d # ds))) rs
       = Decided x y space" by simp
    then show ?thesis by blast
  qed
qed

lemma foldl_done_at:
  "done_at (foldl (\<lambda>m d. m(res_radius d \<mapsto> True)) m0 ds) r =
     (done_at m0 r \<or> r \<in> res_radius ` set ds)"
  by (induction ds arbitrary: m0) (auto simp: done_at_def)

lemma foldl_results_dom:
  "dom (foldl (\<lambda>m d. m(res_radius d \<mapsto> d)) m0 ds) = dom m0 \<union> res_radius ` set ds"
  by (induction ds arbitrary: m0) auto

lemma recorded_done_iff:
  "done_at (recorded_done ds) r = (\<exists>d. recorded_results ds r = Some d)"
proof -
  have "done_at (recorded_done ds) r = (r \<in> res_radius ` set ds)"
    unfolding recorded_done_def foldl_done_at by (simp add: done_at_def)
  also have "\<dots> = (r \<in> dom (recorded_results ds))"
    by (simp add: recorded_results_def foldl_results_dom)
  finally show ?thesis by auto
qed

lemma foldl_results_range:
  "foldl (\<lambda>m d. m(res_radius d \<mapsto> d)) m0 ds r = Some d \<Longrightarrow> m0 r = Some d \<or> d \<in> set ds"
proof (induction ds arbitrary: m0)
  case Nil
  then show ?case by simp
next
  case (Cons a ds)
  from Cons.prems have "foldl (\<lambda>m d. m(res_radius d \<mapsto> d)) (m0(res_radius a \<mapsto> a)) ds r = Some d"
    unfolding foldl_Cons .
  from Cons.IH [OF this] show ?case by (auto split: if_splits)
qed

text \<open>
  C1. Whatever sequence of worker results the aggregator receives, when it returns a
  position with \<open>space = true\<close> that position is the recorded success of a radius \<open>r\<close>
  of the radius sequence, and at that moment every radius of the sequence smaller than
  \<open>r\<close> is recorded as failed: none of them is unresolved, and none holds a success.
  The radius sequence is strictly ascending, as \<^verbatim>\<open>NewWordcloud\<close> builds it.
\<close>

theorem aggregate_minimal_radius:
  assumes asc: "sorted_wrt (<) rs"
    and ret: "aggregate x0 y0 rs Map.empty Map.empty ds = Some (x, y, True)"
  shows "\<exists>n r d. n \<le> length ds \<and> r \<in> set rs \<and> d \<in> set (take n ds)
           \<and> recorded_results (take n ds) r = Some d
           \<and> \<not> res_failed d \<and> res_x d = x \<and> res_y d = y
           \<and> (\<forall>r'\<in>set rs. r' < r \<longrightarrow>
                 (\<exists>d'. recorded_results (take n ds) r' = Some d' \<and> res_failed d'))"
proof -
  from aggregate_decides [OF ret] obtain n where n: "n \<le> length ds"
    and scan: "scanRadii x0 y0 (recorded_results (take n ds)) (recorded_done (take n ds)) rs
                 = Decided x y True"
    by (auto simp: recorded_results_def recorded_done_def)
  let ?R = "recorded_results (take n ds)" and ?D = "recorded_done (take n ds)"
  from scanRadii_success [OF scan] obtain pre r post where
    rs: "rs = pre @ r # post"
    and pre: "\<forall>q\<in>set pre. done_at ?D q \<and> res_failed (result_at ?R q)"
    and r: "done_at ?D r" "\<not> res_failed (result_at ?R r)"
      "x = res_x (result_at ?R r)" "y = res_y (result_at ?R r)"
    by blast
  from r(1) obtain d where d: "?R r = Some d" by (auto simp: recorded_done_iff)
  then have rd: "result_at ?R r = d" by (simp add: result_at_def)
  from d have mem: "d \<in> set (take n ds)"
    using foldl_results_range [of Map.empty "take n ds" r d] by (simp add: recorded_results_def)
  have small: "\<exists>d'. ?R r' = Some d' \<and> res_failed d'" if "r' \<in> set rs" "r' < r" for r'
  proof -
    from asc rs have "\<forall>q\<in>set post. r < q" by (simp add: sorted_wrt_append)
    with that rs have "r' \<in> set pre" by auto
    with pre have "done_at ?D r'" "res_failed (result_at ?R r')" by auto
    then show ?thesis by (auto simp: recorded_done_iff result_at_def)
  qed
  from n rs d rd r mem small show ?thesis by (intro exI [of _ n] exI [of _ r] exI [of _ d]) auto
qed


theorem aggregate_minimal_radius_witness:
  "sorted_wrt (<) [1, 6, 11 :: real]
   \<and> aggregate 60 80 [1, 6, 11] Map.empty Map.empty
        [\<lparr>res_radius = 11, res_x = 41, res_y = 40, res_failed = False\<rparr>,
         \<lparr>res_radius = 1, res_x = 30, res_y = 39, res_failed = True\<rparr>,
         \<lparr>res_radius = 6, res_x = 36, res_y = 40, res_failed = False\<rparr>] = Some (36, 40, True)
   \<and> (\<exists>n r d. n \<le> 3 \<and> r \<in> {1, 6, 11}
          \<and> recorded_results (take n
                [\<lparr>res_radius = 11, res_x = 41, res_y = 40, res_failed = False\<rparr>,
                 \<lparr>res_radius = 1, res_x = 30, res_y = 39, res_failed = True\<rparr>,
                 \<lparr>res_radius = 6, res_x = 36, res_y = 40, res_failed = False\<rparr>]) r = Some d
          \<and> \<not> res_failed d \<and> res_x d = 36 \<and> res_y d = 40)"
proof -
  have asc: "sorted_wrt (<) [1, 6, 11 :: real]" by simp
  have ret: "aggregate 60 80 [1, 6, 11] Map.empty Map.empty
        [\<lparr>res_radius = 11, res_x = 41, res_y = 40, res_failed = False\<rparr>,
         \<lparr>res_radius = 1, res_x = 30, res_y = 39, res_failed = True\<rparr>,
         \<lparr>res_radius = 6, res_x = 36, res_y = 40, res_failed = False\<rparr>] = Some (36, 40, True)"
    by (simp add: done_at_def result_at_def)
  from aggregate_minimal_radius [OF asc ret] asc ret show ?thesis
    by (simp only: list.size set_simps One_nat_def [symmetric]) (auto simp: numeral_3_eq_3)
qed


section \<open>Properties of the radius sequence\<close>



lemma radii_loop_Some:
  "radii_loop E os radius (Some maxR) cs rs =
     (if radius < maxR
      then radii_loop E os (radius + 5) (Some maxR)
             (cs(radius \<mapsto> newCircle E (real_of_int (go_quot (Width os) 2))
                                        (real_of_int (go_quot (Height os) 2)) radius 512))
             (rs @ [radius])
      else (cs, rs))"
  by (subst radii_loop.simps) simp




lemma NewWordcloud_fields:
  "radii (NewWordcloud E wl options) =
     snd (radii_loop E (foldl (\<lambda>acc opt. opt acc) defaultOptions options) 1
            (maxRadius E (foldl (\<lambda>acc opt. opt acc) defaultOptions options)) Map.empty [])"
  "circles (NewWordcloud E wl options) =
     fst (radii_loop E (foldl (\<lambda>acc opt. opt acc) defaultOptions options) 1
            (maxRadius E (foldl (\<lambda>acc opt. opt acc) defaultOptions options)) Map.empty [])"
  "opts (NewWordcloud E wl options) = foldl (\<lambda>acc opt. opt acc) defaultOptions options"
  by (simp_all add: NewWordcloud_def Let_def split_beta)




lemma sqrt_10000: "sqrt 10000 = 100"
  by (rule real_sqrt_unique) simp_all



lemma ref_cloud_radii:
  "radii (ref_cloud wl) = [1, 6, 11, 16, 21, 26, 31, 36, 41, 46,
                           51, 56, 61, 66, 71, 76, 81, 86, 91, 96]"
  unfolding ref_cloud_def NewWordcloud_fields ref_opts
  by (simp add: maxRadius_def go_int_def go_sqrt_def ref_collab_def defaultOptions_def
        sqrt_10000 radii_loop_Some)


section \<open>Properties of the random search\<close>

lemma available_rt_rand [simp]:
  "available E (w\<lparr>rt_rand := n\<rparr>) x y width height = available E w x y width height"
  by (simp add: available_def)

lemma drawn_shift:
  "w_dc w' = w_dc w \<Longrightarrow> rt_rand w' = rt_rand w + 2 \<Longrightarrow> drawn E w' k = drawn E w (Suc k)"
  by (simp add: drawn_def algebra_simps)

lemma nextRandom_loop_step:
  assumes "0 < gg_Width E (w_dc w)" "0 < gg_Height E (w_dc w)" "tries < maxTries"
  shows "nextRandom_loop E w width height tries x y =
     (if available E w (fst (drawn E w 0)) (snd (drawn E w 0)) width height
      then Inr ((fst (drawn E w 0), snd (drawn E w 0), True), w\<lparr>rt_rand := rt_rand w + 2\<rparr>)
      else nextRandom_loop E (w\<lparr>rt_rand := rt_rand w + 2\<rparr>) width height (tries + 1)
             (fst (drawn E w 0)) (snd (drawn E w 0)))"
  using assms
  by (subst nextRandom_loop.simps) (simp add: Intn_def drawn_def)

lemma nextRandom_loop_result:
  assumes pos: "0 < gg_Width E (w_dc w)" "0 < gg_Height E (w_dc w)"
  shows "\<exists>x' y' space n.
      nextRandom_loop E w width height tries x y = Inr ((x', y', space), w\<lparr>rt_rand := rt_rand w + 2 * n\<rparr>)
    \<and> tries + n \<le> max tries maxTries
    \<and> (\<forall>j. Suc j < n \<longrightarrow> \<not> available E w (fst (drawn E w j)) (snd (drawn E w j)) width height)
    \<and> (space \<longrightarrow> 0 < n \<and> (x', y') = drawn E w (n - 1) \<and> available E w x' y' width height)
    \<and> (\<not> space \<longrightarrow> maxTries \<le> tries + n \<and> x' = (if n = 0 then x else fst (drawn E w (n - 1)))
           \<and> y' = (if n = 0 then y else snd (drawn E w (n - 1)))
           \<and> (\<forall>j<n. \<not> available E w (fst (drawn E w j)) (snd (drawn E w j)) width height))"
  using pos
proof (induction "maxTries - tries" arbitrary: tries w x y)
  case 0
  then have "nextRandom_loop E w width height tries x y = Inr ((x, y, False), w)"
    by (subst nextRandom_loop.simps) simp
  with 0 show ?case by (intro exI [of _ x] exI [of _ y] exI [of _ False] exI [of _ 0]) simp
next
  case (Suc m)
  then have lt: "tries < maxTries" by simp
  let ?w = "w\<lparr>rt_rand := rt_rand w + 2\<rparr>"
  let ?i = "fst (drawn E w 0)" and ?j = "snd (drawn E w 0)"
  note step = nextRandom_loop_step [OF Suc.prems lt, of width height x y]
  show ?case
  proof (cases "available E w ?i ?j width height")
    case True
    with step have "nextRandom_loop E w width height tries x y =
        Inr ((?i, ?j, True), w\<lparr>rt_rand := rt_rand w + 2 * 1\<rparr>)" by simp
    with True lt show ?thesis
      by (intro exI [of _ ?i] exI [of _ ?j] exI [of _ True] exI [of _ 1]) simp
  next
    case False
    with step have eq: "nextRandom_loop E w width height tries x y =
        nextRandom_loop E ?w width height (tries + 1) ?i ?j" by simp
    have wpos: "0 < gg_Width E (w_dc ?w)" "0 < gg_Height E (w_dc ?w)"
      using Suc.prems by simp_all
    have m: "m = maxTries - (tries + 1)" using Suc.hyps(2) by simp
    have sh: "drawn E ?w k = drawn E w (Suc k)" for k
      by (rule drawn_shift) simp_all
    from Suc.hyps(1) [OF m wpos, of ?i ?j] obtain x' y' space n where
      r: "nextRandom_loop E ?w width height (tries + 1) ?i ?j =
            Inr ((x', y', space), ?w\<lparr>rt_rand := rt_rand ?w + 2 * n\<rparr>)"
      and b: "tries + 1 + n \<le> max (tries + 1) maxTries"
      and e: "\<forall>j. Suc j < n \<longrightarrow> \<not> available E w (fst (drawn E w (Suc j))) (snd (drawn E w (Suc j))) width height"
      and s: "space \<longrightarrow> 0 < n \<and> (x', y') = drawn E w (Suc (n - 1)) \<and> available E w x' y' width height"
      and f: "\<not> space \<longrightarrow> maxTries \<le> tries + 1 + n
           \<and> x' = (if n = 0 then ?i else fst (drawn E w (Suc (n - 1))))
           \<and> y' = (if n = 0 then ?j else snd (drawn E w (Suc (n - 1))))
           \<and> (\<forall>j<n. \<not> available E w (fst (drawn E w (Suc j))) (snd (drawn E w (Suc j))) width height)"
      unfolding sh available_rt_rand by blast
    have r': "nextRandom_loop E w width height tries x y =
        Inr ((x', y', space), w\<lparr>rt_rand := rt_rand w + 2 * Suc n\<rparr>)"
      unfolding eq r by simp
    have b': "tries + Suc n \<le> max tries maxTries" using b lt by simp
    have e': "\<not> available E w (fst (drawn E w j)) (snd (drawn E w j)) width height"
      if "Suc j < Suc n" for j
      using that e False by (cases j) simp_all
    have s': "0 < Suc n \<and> (x', y') = drawn E w (Suc n - 1) \<and> available E w x' y' width height"
      if space
      using that s by (cases n) simp_all
    have f': "maxTries \<le> tries + Suc n
           \<and> x' = (if Suc n = 0 then x else fst (drawn E w (Suc n - 1)))
           \<and> y' = (if Suc n = 0 then y else snd (drawn E w (Suc n - 1)))
           \<and> (\<forall>j<Suc n. \<not> available E w (fst (drawn E w j)) (snd (drawn E w j)) width height)"
      if "\<not> space"
    proof -
      from that f have f1: "maxTries \<le> tries + 1 + n"
        and f2: "x' = (if n = 0 then ?i else fst (drawn E w (Suc (n - 1))))"
        and f3: "y' = (if n = 0 then ?j else snd (drawn E w (Suc (n - 1))))"
        and f4: "\<forall>j<n. \<not> available E w (fst (drawn E w (Suc j))) (snd (drawn E w (Suc j))) width height"
        by simp_all
      have "\<not> available E w (fst (drawn E w j)) (snd (drawn E w j)) width height" if "j < Suc n" for j
        using that f4 False by (cases j) simp_all
      with f1 f2 f3 show ?thesis by (cases n) simp_all
    qed
    show ?thesis
    proof (intro exI conjI)
      show "nextRandom_loop E w width height tries x y =
              Inr ((x', y', space), w\<lparr>rt_rand := rt_rand w + 2 * Suc n\<rparr>)"
        by (rule r')
      show "tries + Suc n \<le> max tries maxTries" by (rule b')
      show "\<forall>j. Suc j < Suc n \<longrightarrow>
              \<not> available E w (fst (drawn E w j)) (snd (drawn E w j)) width height"
        using e' by blast
      show "space \<longrightarrow> 0 < Suc n \<and> (x', y') = drawn E w (Suc n - 1)
              \<and> available E w x' y' width height"
        using s' by blast
      show "\<not> space \<longrightarrow> maxTries \<le> tries + Suc n
           \<and> x' = (if Suc n = 0 then x else fst (drawn E w (Suc n - 1)))
           \<and> y' = (if Suc n = 0 then y else snd (drawn E w (Suc n - 1)))
           \<and> (\<forall>j<Suc n. \<not> available E w (fst (drawn E w j)) (snd (drawn E w j)) width height)"
        using f' by blast
    qed
  qed
qed


lemma drawn_in_canvas:
  assumes "0 < gg_Width E (w_dc w)" "0 < gg_Height E (w_dc w)"
  shows "fst (drawn E w k) \<in> \<int>" "0 \<le> fst (drawn E w k)"
    "fst (drawn E w k) < real_of_int (gg_Width E (w_dc w))"
    "snd (drawn E w k) \<in> \<int>" "0 \<le> snd (drawn E w k)"
    "snd (drawn E w k) < real_of_int (gg_Height E (w_dc w))"
  using assms by (simp_all add: drawn_def)

lemma Intn_panics:
  "n \<le> 0 \<Longrightarrow> Intn E w n = Inl IntnPanic"
  by (simp add: Intn_def)

lemma nextPos_random_panics:
  assumes "randomPlacement w" "gg_Width E (w_dc w) \<le> 0 \<or> gg_Height E (w_dc w) \<le> 0"
  shows "nextPos E w width height = Inl IntnPanic"
proof (cases "gg_Width E (w_dc w) \<le> 0")
  case True
  then have "nextRandom_loop E w width height 0 0 0 = Inl IntnPanic"
    by (subst nextRandom_loop.simps) (simp add: maxTries_def Intn_panics)
  with assms(1) show ?thesis by (simp add: nextPos_def nextRandom_def)
next
  case False
  with assms(2) have h: "gg_Height E (w_dc w) \<le> 0" by simp
  from False have "Intn E w (gg_Width E (w_dc w)) =
      Inr (int (rand_raw E (rt_rand w)) mod gg_Width E (w_dc w), w\<lparr>rt_rand := rt_rand w + 1\<rparr>)"
    by (simp add: Intn_def)
  moreover have "Intn E (w\<lparr>rt_rand := rt_rand w + 1\<rparr>)
                   (gg_Height E (w_dc (w\<lparr>rt_rand := rt_rand w + 1\<rparr>))) = Inl IntnPanic"
    using h by (simp add: Intn_panics)
  ultimately have "nextRandom_loop E w width height 0 0 0 = Inl IntnPanic"
    by (subst nextRandom_loop.simps) (simp add: maxTries_def)
  with assms(1) show ?thesis by (simp add: nextPos_def nextRandom_def)
qed

text \<open>
  C8. In random-placement mode, on a canvas of positive width and height, \<^verbatim>\<open>nextPos\<close>
  returns after \<open>n\<close> attempts with \<open>n \<le> 5000000\<close>. The position of attempt \<open>k\<close> is made
  of two outputs of the generator, reduced to \<open>0 \<le> x < width\<close> and \<open>0 \<le> y < height\<close> of
  the canvas, with integer coordinates. A position is free when the rectangle centred on
  it fits the canvas and does not collide in the grid. All attempts before the last one
  were not free. With \<open>space = true\<close> the position returned is the one of the last attempt
  and it is free, so it is the first free position drawn; with \<open>space = false\<close> all
  5000000 attempts were made, none was free, and the position of the last one is returned.
\<close>

theorem nextPos_random:
  assumes "randomPlacement w" "0 < gg_Width E (w_dc w)" "0 < gg_Height E (w_dc w)"
  shows
   "(let posx = (\<lambda>k. real_of_int (int (rand_raw E (rt_rand w + 2 * k)) mod gg_Width E (w_dc w)));
         posy = (\<lambda>k. real_of_int (int (rand_raw E (rt_rand w + 2 * k + 1)) mod gg_Height E (w_dc w)));
         free = (\<lambda>x y. box_fits E \<lparr>Top = y + height / 2, Left = x - width / 2,
                                    Right = x + width / 2, Bottom = y - height / 2\<rparr>
                          (w_width w) (w_height w)
                      \<and> \<not> grid_TestCollision E (w_grid w)
                            \<lparr>Top = y + height / 2, Left = x - width / 2,
                             Right = x + width / 2, Bottom = y - height / 2\<rparr>
                            (box_overlaps E))
     in \<exists>x y space n.
          nextPos E w width height = Inr ((x, y, space), w\<lparr>rt_rand := rt_rand w + 2 * n\<rparr>)
        \<and> n \<le> 5000000
        \<and> (\<forall>j. Suc j < n \<longrightarrow> \<not> free (posx j) (posy j))
        \<and> (space \<longrightarrow> 0 < n \<and> x = posx (n - 1) \<and> y = posy (n - 1) \<and> free x y)
        \<and> (\<not> space \<longrightarrow> n = 5000000 \<and> x = posx (n - 1) \<and> y = posy (n - 1)
               \<and> (\<forall>j<5000000. \<not> free (posx j) (posy j)))
        \<and> (\<forall>k. posx k \<in> \<int> \<and> 0 \<le> posx k \<and> posx k < real_of_int (gg_Width E (w_dc w))
               \<and> posy k \<in> \<int> \<and> 0 \<le> posy k \<and> posy k < real_of_int (gg_Height E (w_dc w))))"
proof -
  have fx: "real_of_int (int (rand_raw E (rt_rand w + 2 * k)) mod gg_Width E (w_dc w)) =
            fst (drawn E w k)"
    and fy: "real_of_int (int (rand_raw E (rt_rand w + 2 * k + 1)) mod gg_Height E (w_dc w)) =
            snd (drawn E w k)" for k
    by (simp_all add: drawn_def)
  have fr: "(box_fits E \<lparr>Top = y + height / 2, Left = x - width / 2,
                          Right = x + width / 2, Bottom = y - height / 2\<rparr>
                (w_width w) (w_height w)
             \<and> \<not> grid_TestCollision E (w_grid w)
                   \<lparr>Top = y + height / 2, Left = x - width / 2,
                    Right = x + width / 2, Bottom = y - height / 2\<rparr>
                   (box_overlaps E))
            = available E w x y width height" for x y
    by (simp add: available_def centredBox_def Let_def)
  from nextRandom_loop_result [OF assms(2,3), of width height 0 0 0]
  obtain x y space n where
    r: "nextRandom_loop E w width height 0 0 0 = Inr ((x, y, space), w\<lparr>rt_rand := rt_rand w + 2 * n\<rparr>)"
    and b: "0 + n \<le> max 0 maxTries"
    and e: "\<forall>j. Suc j < n \<longrightarrow> \<not> available E w (fst (drawn E w j)) (snd (drawn E w j)) width height"
    and s: "space \<longrightarrow> 0 < n \<and> (x, y) = drawn E w (n - 1) \<and> available E w x y width height"
    and f: "\<not> space \<longrightarrow> maxTries \<le> 0 + n \<and> x = (if n = 0 then 0 else fst (drawn E w (n - 1)))
           \<and> y = (if n = 0 then 0 else snd (drawn E w (n - 1)))
           \<and> (\<forall>j<n. \<not> available E w (fst (drawn E w j)) (snd (drawn E w j)) width height)"
    by blast
  from b have n: "n \<le> maxTries" by simp
  show ?thesis
    unfolding Let_def fx fy fr
  proof (intro exI conjI)
    show "nextPos E w width height = Inr ((x, y, space), w\<lparr>rt_rand := rt_rand w + 2 * n\<rparr>)"
      using assms(1) r by (simp add: nextPos_def nextRandom_def)
    show "n \<le> 5000000" using n unfolding maxTries_def .
    show "\<forall>j. Suc j < n \<longrightarrow> \<not> available E w (fst (drawn E w j)) (snd (drawn E w j)) width height"
      by (rule e)
    show "space \<longrightarrow> 0 < n \<and> x = fst (drawn E w (n - 1)) \<and> y = snd (drawn E w (n - 1))
            \<and> available E w x y width height"
    proof
      assume space
      with s have "0 < n" "(x, y) = drawn E w (n - 1)" "available E w x y width height"
        by simp_all
      then show "0 < n \<and> x = fst (drawn E w (n - 1)) \<and> y = snd (drawn E w (n - 1))
            \<and> available E w x y width height"
        by (metis fst_conv snd_conv)
    qed
    show "\<not> space \<longrightarrow> n = 5000000 \<and> x = fst (drawn E w (n - 1)) \<and> y = snd (drawn E w (n - 1))
           \<and> (\<forall>j<5000000. \<not> available E w (fst (drawn E w j)) (snd (drawn E w j)) width height)"
    proof
      assume "\<not> space"
      with f n have nm: "n = maxTries"
        and x: "x = (if n = 0 then 0 else fst (drawn E w (n - 1)))"
        and y: "y = (if n = 0 then 0 else snd (drawn E w (n - 1)))"
        and a: "\<forall>j<n. \<not> available E w (fst (drawn E w j)) (snd (drawn E w j)) width height"
        by simp_all
      from nm have "n \<noteq> 0" by (simp add: maxTries_def)
      with x y have "x = fst (drawn E w (n - 1))" "y = snd (drawn E w (n - 1))" by simp_all
      moreover from nm have "n = 5000000" by (simp add: maxTries_def)
      moreover from a nm
      have "\<forall>j<5000000. \<not> available E w (fst (drawn E w j)) (snd (drawn E w j)) width height"
        by (simp add: maxTries_def)
      ultimately show "n = 5000000 \<and> x = fst (drawn E w (n - 1)) \<and> y = snd (drawn E w (n - 1))
           \<and> (\<forall>j<5000000. \<not> available E w (fst (drawn E w j)) (snd (drawn E w j)) width height)"
        by (intro conjI)
    qed
    show "\<forall>k. fst (drawn E w k) \<in> \<int> \<and> 0 \<le> fst (drawn E w k)
             \<and> fst (drawn E w k) < real_of_int (gg_Width E (w_dc w))
             \<and> snd (drawn E w k) \<in> \<int> \<and> 0 \<le> snd (drawn E w k)
             \<and> snd (drawn E w k) < real_of_int (gg_Height E (w_dc w))"
      using drawn_in_canvas [OF assms(2,3)] by blast
  qed
qed

lemma ref_cloud_dc:
  "w_dc (ref_cloud wl) =
     \<lparr>cv_width = 60, cv_height = 80, cv_pen = RGBA 0 0 0 255, cv_face = None, cv_path = None,
      cv_pixels = (\<lambda>i j. RGBA 255 255 255 255)\<rparr>"
  unfolding ref_cloud_def NewWordcloud_def ref_opts
  by (simp add: Let_def split_beta defaultOptions_def ref_collab_def)

text \<open>
  On the masked cloud the generator gives the positions \<open>(3, 10)\<close>, \<open>(17, 24)\<close>,
  \<open>(31, 38)\<close>, ... For a rectangle of 9 by 9 the first is off the canvas, the second
  collides with the mask, and the third is returned after three attempts. A rectangle of
  205 by 9 fits nowhere: the search gives up after 5000000 attempts.
\<close>

theorem nextPos_random_witness:
  "randomPlacement ref_masked_cloud
   \<and> 0 < gg_Width ref_collab (w_dc ref_masked_cloud)
   \<and> 0 < gg_Height ref_collab (w_dc ref_masked_cloud)
   \<and> nextPos ref_collab ref_masked_cloud 9 9 =
        Inr ((31, 38, True), ref_masked_cloud\<lparr>rt_rand := 6\<rparr>)
   \<and> nextPos ref_collab ref_masked_cloud 205 9 =
        Inr ((29, 76, False), ref_masked_cloud\<lparr>rt_rand := 10000000\<rparr>)"
proof -
  let ?w = "ref_masked_cloud"
  have h: "randomPlacement ?w" "0 < gg_Width ref_collab (w_dc ?w)" "0 < gg_Height ref_collab (w_dc ?w)"
    by (simp_all add: ref_masked_cloud_fields) (simp_all add: ref_collab_def)
  have c: "gg_Width ref_collab (w_dc ?w) = 60" "gg_Height ref_collab (w_dc ?w) = 80"
    "rand_raw ref_collab = (\<lambda>k. 7 * k + 3)" "box_fits ref_collab = ref_fits"
    "grid_TestCollision ref_collab g b (box_overlaps ref_collab) = list_ex (ref_overlaps b) g"
    "rt_rand ?w = 0" "w_width ?w = 60" "w_height ?w = 80"
    "w_grid ?w = [\<lparr>Top = 30, Left = 10, Right = 30, Bottom = 10\<rparr>]" for g b
    by (simp_all add: ref_masked_cloud_fields) (simp_all add: ref_collab_def)
  have first: "nextPos ref_collab ?w 9 9 = Inr ((31, 38, True), ?w\<lparr>rt_rand := 6\<rparr>)"
  proof -
    from nextPos_random [OF h, where width = 9 and height = 9, unfolded Let_def c] obtain x y space n where
      r: "nextPos ref_collab ?w 9 9 = Inr ((x, y, space), ?w\<lparr>rt_rand := 0 + 2 * n\<rparr>)"
      and e: "\<forall>j. Suc j < n \<longrightarrow>
               \<not> (ref_fits \<lparr>Top = real_of_int (int (7 * (0 + 2 * j + 1) + 3) mod 80) + 9 / 2,
                            Left = real_of_int (int (7 * (0 + 2 * j) + 3) mod 60) - 9 / 2,
                            Right = real_of_int (int (7 * (0 + 2 * j) + 3) mod 60) + 9 / 2,
                            Bottom = real_of_int (int (7 * (0 + 2 * j + 1) + 3) mod 80) - 9 / 2\<rparr> 60 80
                 \<and> \<not> list_ex (ref_overlaps
                          \<lparr>Top = real_of_int (int (7 * (0 + 2 * j + 1) + 3) mod 80) + 9 / 2,
                            Left = real_of_int (int (7 * (0 + 2 * j) + 3) mod 60) - 9 / 2,
                            Right = real_of_int (int (7 * (0 + 2 * j) + 3) mod 60) + 9 / 2,
                            Bottom = real_of_int (int (7 * (0 + 2 * j + 1) + 3) mod 80) - 9 / 2\<rparr>)
                        [\<lparr>Top = 30, Left = 10, Right = 30, Bottom = 10\<rparr>])"
      and s: "space \<longrightarrow> 0 < n
               \<and> x = real_of_int (int (7 * (0 + 2 * (n - 1)) + 3) mod 60)
               \<and> y = real_of_int (int (7 * (0 + 2 * (n - 1) + 1) + 3) mod 80)
               \<and> (ref_fits \<lparr>Top = y + 9 / 2, Left = x - 9 / 2, Right = x + 9 / 2, Bottom = y - 9 / 2\<rparr> 60 80
                 \<and> \<not> list_ex (ref_overlaps
                          \<lparr>Top = y + 9 / 2, Left = x - 9 / 2, Right = x + 9 / 2, Bottom = y - 9 / 2\<rparr>)
                        [\<lparr>Top = 30, Left = 10, Right = 30, Bottom = 10\<rparr>])"
      and f: "\<not> space \<longrightarrow> n = 5000000"
      by blast
    have "\<not> Suc 2 < n"
    proof
      assume "Suc 2 < n"
      with e [rule_format, of 2] show False
        by (simp add: ref_fits_def ref_overlaps_def)
    qed
    then have n3: "n \<le> 3" by simp
    with f have sp: space by auto
    with s have pos: "0 < n" by simp
    have "n \<noteq> 1"
    proof
      assume "n = 1"
      with s sp show False by (auto simp: ref_fits_def)
    qed
    moreover have "n \<noteq> 2"
    proof
      assume "n = 2"
      with s sp show False by (auto simp: ref_fits_def ref_overlaps_def)
    qed
    ultimately have n: "n = 3" using n3 pos by simp
    with s sp have "x = 31" "y = 38" by simp_all
    with r n sp show ?thesis by simp
  qed
  have cap: "nextPos ref_collab ?w 205 9 = Inr ((29, 76, False), ?w\<lparr>rt_rand := 10000000\<rparr>)"
  proof -
    from nextPos_random [OF h, where width = 205 and height = 9, unfolded Let_def c] obtain x y space n where
      r: "nextPos ref_collab ?w 205 9 = Inr ((x, y, space), ?w\<lparr>rt_rand := 0 + 2 * n\<rparr>)"
      and s: "space \<longrightarrow>
                 ref_fits \<lparr>Top = y + 9 / 2, Left = x - 205 / 2, Right = x + 205 / 2, Bottom = y - 9 / 2\<rparr> 60 80"
      and f: "\<not> space \<longrightarrow> n = 5000000
               \<and> x = real_of_int (int (7 * (0 + 2 * (n - 1)) + 3) mod 60)
               \<and> y = real_of_int (int (7 * (0 + 2 * (n - 1) + 1) + 3) mod 80)"
      by blast
    have "\<not> space"
    proof
      assume space
      with s show False by (auto simp: ref_fits_def)
    qed
    with f have "n = 5000000" "x = 29" "y = 76" by simp_all
    with r \<open>\<not> space\<close> show ?thesis by simp
  qed
  from h first cap show ?thesis by (intro conjI)
qed

text \<open>
  A canvas of width 0 (the option \<^verbatim>\<open>Width(0)\<close>) in random-placement mode: the first call
  \<^verbatim>\<open>rand.Intn(w.dc.Width())\<close> panics, so the search neither returns a position nor
  \<open>space = false\<close>.
\<close>

theorem nextPos_random_zero_width:
  "randomPlacement (NewWordcloud ref_collab [] [Width_opt 0, RandomPlacement_opt True])
   \<and> gg_Width ref_collab (w_dc (NewWordcloud ref_collab [] [Width_opt 0, RandomPlacement_opt True])) = 0
   \<and> nextPos ref_collab (NewWordcloud ref_collab [] [Width_opt 0, RandomPlacement_opt True]) 9 9 =
       Inl IntnPanic"
proof -
  let ?w = "NewWordcloud ref_collab [] [Width_opt 0, RandomPlacement_opt True]"
  have o: "foldl (\<lambda>acc opt. opt acc) defaultOptions [Width_opt 0, RandomPlacement_opt True] =
           defaultOptions\<lparr>Width := 0, RandomPlacement := True\<rparr>"
    by (simp add: Width_opt_def RandomPlacement_opt_def)
  have r: "randomPlacement ?w"
    unfolding NewWordcloud_def o by (simp add: Let_def split_beta)
  have d: "gg_Width ref_collab (w_dc ?w) = 0"
    unfolding NewWordcloud_def o
    by (simp add: Let_def split_beta defaultOptions_def ref_collab_def)
  from d have "gg_Width ref_collab (w_dc ?w) \<le> 0 \<or> gg_Height ref_collab (w_dc ?w) \<le> 0"
    by simp
  from r d nextPos_random_panics [OF r this] show ?thesis by (intro conjI)
qed


section \<open>Properties of the font size\<close>

lemma hd_sorted_map_Min:
  assumes "xs \<noteq> []" "sorted (map f xs)"
  shows "f (hd xs) = Min (f ` set xs)"
proof (cases xs)
  case Nil
  with assms show ?thesis by simp
next
  case (Cons a ys)
  with assms(2) have "\<forall>y\<in>set ys. f a \<le> f y" by simp
  then have "Min (f ` set (a # ys)) = f a"
    by (intro Min_eqI) auto
  with Cons show ?thesis by simp
qed

lemma sortWordList_top:
  assumes "wl \<noteq> []"
  shows "count (hd (sortWordList wl)) = Max (snd ` set wl)"
proof -
  let ?xs = "map (\<lambda>(s, n). \<lparr>word = trimSpaces s, count = n\<rparr>) wl"
  let ?f = "\<lambda>wc. - count wc"
  have "length (sortWordList wl) = length wl"
    by (simp add: sortWordList_def)
  with assms have ne: "sortWordList wl \<noteq> []"
    by (cases "sortWordList wl") auto
  have "?f (hd (sortWordList wl)) = Min (?f ` set (sortWordList wl))"
    by (rule hd_sorted_map_Min [OF ne]) (simp add: sortWordList_def)
  also have "?f ` set (sortWordList wl) = uminus ` snd ` set wl"
    by (force simp: sortWordList_def image_iff)
  also have "Min (uminus ` snd ` set wl) = - Max (snd ` set wl)"
    using assms by (simp add: Max.hom_commute [symmetric] mono_def)
  finally show ?thesis by simp
qed

lemma fontSize_finite:
  "topCount \<noteq> 0 \<Longrightarrow>
   fontSize os cnt topCount =
     Finite (max (real_of_int (FontMinSize os))
                 (real_of_int (FontMaxSize os) * (real_of_int cnt / real_of_int topCount)))"
  by (simp add: fontSize_def fdiv_def Let_def max_def)


text \<open>
  C6, as amended. For every word of a non-empty word list whose largest count is not
  zero, the divisor \<^verbatim>\<open>sortedWordList[0].count\<close> is the largest count of the list, and the
  font size is the maximum font size multiplied by the ratio of the word's count to that
  largest count, replaced by the minimum font size when it is smaller. The size is
  proportional to the count; it is not an interpolation between the minimum and the
  maximum.
\<close>

theorem NewWordcloud_fontSize:
  assumes "wl \<noteq> []" and "Max (snd ` set wl) \<noteq> 0"
  shows "(let w = NewWordcloud E wl options in
           sortedWordList w \<noteq> []
         \<and> count (hd (sortedWordList w)) = Max (snd ` set wl)
         \<and> (\<forall>cnt. fontSize (opts w) cnt (count (hd (sortedWordList w))) =
                Finite (max (real_of_int (FontMinSize (opts w)))
                            (real_of_int (FontMaxSize (opts w))
                             * (real_of_int cnt / real_of_int (Max (snd ` set wl)))))))"
proof -
  have s: "sortedWordList (NewWordcloud E wl options) = sortWordList wl"
    by (simp add: NewWordcloud_def Let_def split_beta)
  have "length (sortWordList wl) = length wl"
    by (simp add: sortWordList_def)
  with assms(1) have ne: "sortWordList wl \<noteq> []"
    by (cases "sortWordList wl") auto
  from assms ne show ?thesis
    unfolding Let_def s sortWordList_top [OF assms(1)] by (simp add: fontSize_finite)
qed

theorem NewWordcloud_fontSize_witness:
  "[(''a'', 100), (''b'', 50), (''c'', 1 :: int)] \<noteq> []
   \<and> Max (snd ` set [(''a'', 100), (''b'', 50), (''c'', 1 :: int)]) \<noteq> 0
   \<and> count (hd (sortedWordList (NewWordcloud ref_collab [(''a'', 100), (''b'', 50), (''c'', 1)]
                                     [FontMaxSize_opt 80, FontMinSize_opt 10]))) = 100
   \<and> fontSize (opts (NewWordcloud ref_collab [(''a'', 100), (''b'', 50), (''c'', 1)]
                          [FontMaxSize_opt 80, FontMinSize_opt 10])) 50 100 = Finite 40
   \<and> fontSize (opts (NewWordcloud ref_collab [(''a'', 100), (''b'', 50), (''c'', 1)]
                          [FontMaxSize_opt 80, FontMinSize_opt 10])) 1 100 = Finite 10"
proof -
  have h: "[(''a'', 100), (''b'', 50), (''c'', 1 :: int)] \<noteq> []"
    "Max (snd ` set [(''a'', 100), (''b'', 50), (''c'', 1 :: int)]) \<noteq> 0"
    by simp_all
  have m: "Max (snd ` set [(''a'', 100), (''b'', 50), (''c'', 1 :: int)]) = 100" by simp
  have o: "opts (NewWordcloud ref_collab [(''a'', 100), (''b'', 50), (''c'', 1)]
                   [FontMaxSize_opt 80, FontMinSize_opt 10]) =
           defaultOptions\<lparr>FontMaxSize := 80, FontMinSize := 10\<rparr>"
    by (simp add: NewWordcloud_fields FontMaxSize_opt_def FontMinSize_opt_def)
  let ?w = "NewWordcloud ref_collab [(''a'', 100), (''b'', 50), (''c'', 1)]
              [FontMaxSize_opt 80, FontMinSize_opt 10]"
  from NewWordcloud_fontSize [OF h, of ref_collab "[FontMaxSize_opt 80, FontMinSize_opt 10]"]
  have c: "count (hd (sortedWordList ?w)) = 100"
    and f: "\<And>cnt. fontSize (opts ?w) cnt (count (hd (sortedWordList ?w))) =
                Finite (max (real_of_int (FontMinSize (opts ?w)))
                            (real_of_int (FontMaxSize (opts ?w)) * (real_of_int cnt / real_of_int 100)))"
    unfolding Let_def m by blast+
  from f [of 50] f [of 1] have "fontSize (opts ?w) 50 100 = Finite 40"
    "fontSize (opts ?w) 1 100 = Finite 10"
    unfolding c o by (simp_all add: defaultOptions_def)
  with h c show ?thesis by simp
qed

theorem fontSize_not_interpolated:
  "fontSize (defaultOptions\<lparr>FontMaxSize := 80, FontMinSize := 10\<rparr>) 50 100 = Finite 40
   \<and> interpolatedSize (defaultOptions\<lparr>FontMaxSize := 80, FontMinSize := 10\<rparr>) 50 100 = 45
   \<and> fontSize (defaultOptions\<lparr>FontMaxSize := 80, FontMinSize := 10\<rparr>) 50 100
       \<noteq> Finite (interpolatedSize (defaultOptions\<lparr>FontMaxSize := 80, FontMinSize := 10\<rparr>) 50 100)"
  by (simp add: fontSize_def fdiv_def interpolatedSize_def defaultOptions_def)


section \<open>Properties of the precise bounding boxes\<close>

lemma steps_set: "set (steps lo hi) = {v. lo \<le> v \<and> v < hi \<and> (v - lo) mod 5 = 0}"
proof (induction lo hi rule: steps.induct)
  case (1 lo hi)
  show ?case
  proof (cases "lo < hi")
    case False
    then show ?thesis by (subst steps.simps) auto
  next
    case True
    have "{v. lo \<le> v \<and> v < hi \<and> (v - lo) mod 5 = 0} =
          insert lo {v. lo + 5 \<le> v \<and> v < hi \<and> (v - (lo + 5)) mod 5 = 0}"
      using True by (auto; presburger)
    with True "1.IH" show ?thesis by (subst steps.simps) simp
  qed
qed

lemma precise_column_eq:
  "precise_column img i j jtop res =
     res @ map (sampleBox i) (filter (\<lambda>b. img i b \<noteq> defColor) (steps j jtop))"
proof (induction img i j jtop res rule: precise_column.induct)
  case (1 img i j jtop res)
  show ?case
  proof (cases "j < jtop")
    case False
    then show ?thesis
      by (subst precise_column.simps, subst steps.simps) simp
  next
    case True
    with "1.IH" show ?thesis
      by (subst precise_column.simps, subst steps.simps) simp
  qed
qed

lemma precise_rows_eq:
  "precise_rows img i iright jbottom jtop res =
     res @ concat (map (\<lambda>a. map (sampleBox a) (filter (\<lambda>b. img a b \<noteq> defColor) (steps jbottom jtop)))
                       (steps i iright))"
proof (induction img i iright jbottom jtop res rule: precise_rows.induct)
  case (1 img i iright jbottom jtop res)
  show ?case
  proof (cases "i < iright")
    case False
    then show ?thesis
      by (subst precise_rows.simps, subst steps.simps) simp
  next
    case True
    with "1.IH" show ?thesis
      by (subst precise_rows.simps, subst steps.simps) (simp add: precise_column_eq)
  qed
qed

lemma sampleBox_inj: "sampleBox i j = sampleBox a b \<longleftrightarrow> i = a \<and> j = b"
  by (auto simp: sampleBox_def)

lemma getPreciseBoundingBoxes_set:
  "set (getPreciseBoundingBoxes E w b) =
     {sampleBox i j | i j.
        i \<in> set (steps \<lfloor>Left b\<rfloor> (go_trunc (Right b)))
      \<and> j \<in> set (steps (go_trunc (Bottom b)) (go_trunc (Top b)))
      \<and> gg_At E (w_dc w) i j \<noteq> defColor}"
  unfolding getPreciseBoundingBoxes_def precise_rows_eq by auto


lemma getPreciseBoundingBoxes_sample:
  assumes "i \<in> set (steps \<lfloor>Left b\<rfloor> (go_trunc (Right b)))"
    and "j \<in> set (steps (go_trunc (Bottom b)) (go_trunc (Top b)))"
  shows "sampleBox i j \<in> set (getPreciseBoundingBoxes E w b) \<longleftrightarrow>
         gg_At E (w_dc w) i j \<noteq> defColor"
  using assms unfolding getPreciseBoundingBoxes_set by (auto simp: sampleBox_inj)

lemma ref_dark_cloud_dc:
  "w_dc ref_dark_cloud =
     \<lparr>cv_width = 2048, cv_height = 2048, cv_pen = RGBA 255 255 255 255, cv_face = None,
      cv_path = None,
      cv_pixels = (\<lambda>a b. if \<bar>a - 7\<bar> \<le> 2 \<and> \<bar>b - 2\<bar> \<le> 2 then RGBA 255 255 255 255
                          else RGBA 0 0 0 255)\<rparr>"
  "BackgroundColor (opts ref_dark_cloud) = RGBA 0 0 0 255"
  by (simp_all add: ref_dark_cloud_def NewWordcloud_def Let_def split_beta BackgroundColor_opt_def
      defaultOptions_def ref_collab_def cv_paint_def cong: if_cong)

text \<open>
  C5. The code at a failing input: the canvas is configured with a black background, and
  a word has been drawn on it in white. In the rectangle from \<open>(0, 0)\<close> to \<open>(10, 5)\<close>
  the samples are the pixels \<open>(0, 0)\<close> and \<open>(5, 0)\<close>. The first has the configured
  background colour and the second differs from it, yet the box recorded is the one of
  the first: the comparison is with opaque white, not with the configured colour.
\<close>

theorem getPreciseBoundingBoxes_ignores_background:
  "gg_At ref_collab (w_dc ref_dark_cloud) 0 0 = BackgroundColor (opts ref_dark_cloud)
   \<and> gg_At ref_collab (w_dc ref_dark_cloud) 5 0 \<noteq> BackgroundColor (opts ref_dark_cloud)
   \<and> steps \<lfloor>Left \<lparr>Top = 5, Left = 0, Right = 10, Bottom = 0\<rparr>\<rfloor>
            (go_trunc (Right \<lparr>Top = 5, Left = 0, Right = 10, Bottom = 0\<rparr>)) = [0, 5]
   \<and> steps (go_trunc (Bottom \<lparr>Top = 5, Left = 0, Right = 10, Bottom = 0\<rparr>))
            (go_trunc (Top \<lparr>Top = 5, Left = 0, Right = 10, Bottom = 0\<rparr>)) = [0]
   \<and> getPreciseBoundingBoxes ref_collab ref_dark_cloud \<lparr>Top = 5, Left = 0, Right = 10, Bottom = 0\<rparr>
       = [sampleBox 0 0]"
  by (simp add: getPreciseBoundingBoxes_def precise_rows_eq steps.simps go_trunc_def
      ref_dark_cloud_dc defColor_def)
     (simp add: ref_collab_def)


section \<open>The reference cloud, field by field\<close>

lemma ref_cloud_circles:
  "circles (ref_cloud wl) =
     [1 \<mapsto> ref_circle 30 40 1 512, 6 \<mapsto> ref_circle 30 40 6 512, 11 \<mapsto> ref_circle 30 40 11 512,
      16 \<mapsto> ref_circle 30 40 16 512, 21 \<mapsto> ref_circle 30 40 21 512, 26 \<mapsto> ref_circle 30 40 26 512,
      31 \<mapsto> ref_circle 30 40 31 512, 36 \<mapsto> ref_circle 30 40 36 512, 41 \<mapsto> ref_circle 30 40 41 512,
      46 \<mapsto> ref_circle 30 40 46 512, 51 \<mapsto> ref_circle 30 40 51 512, 56 \<mapsto> ref_circle 30 40 56 512,
      61 \<mapsto> ref_circle 30 40 61 512, 66 \<mapsto> ref_circle 30 40 66 512, 71 \<mapsto> ref_circle 30 40 71 512,
      76 \<mapsto> ref_circle 30 40 76 512, 81 \<mapsto> ref_circle 30 40 81 512, 86 \<mapsto> ref_circle 30 40 86 512,
      91 \<mapsto> ref_circle 30 40 91 512, 96 \<mapsto> ref_circle 30 40 96 512]"
proof -
  have m: "maxRadius ref_collab
             (defaultOptions\<lparr>Width := 60, Height := 80, FontMaxSize := 40, FontMinSize := 4\<rparr>) =
           Some 100"
    by (simp add: maxRadius_def go_int_def go_sqrt_def ref_collab_def sqrt_10000)
  have n: "newCircle ref_collab = ref_circle"
    by (simp add: ref_collab_def)
  show ?thesis
    unfolding ref_cloud_def NewWordcloud_fields ref_opts m
    by (simp add: defaultOptions_def radii_loop_Some go_quot_def n)
qed

lemma ref_cloud_rest:
  "sortedWordList (ref_cloud wl) = sortWordList wl"
  "randomPlacement (ref_cloud wl) = False"
  "opts (ref_cloud wl) = defaultOptions\<lparr>Width := 60, Height := 80, FontMaxSize := 40, FontMinSize := 4\<rparr>"
  "fonts (ref_cloud wl) = Map.empty"
  "rt_rand (ref_cloud wl) = 0"
  "rt_search (ref_cloud wl) = 0"
  unfolding ref_cloud_def NewWordcloud_def ref_opts
  by (simp_all add: Let_def split_beta defaultOptions_def)

lemmas ref_cloud_simps =
  ref_cloud_canvas ref_cloud_dc ref_cloud_radii ref_cloud_circles ref_cloud_rest


section \<open>What a search and a measurement leave unchanged\<close>

lemma nextRandom_loop_frame:
  assumes "nextRandom_loop E w width height tries x y = Inr (r, w')"
  shows "w' = w\<lparr>rt_rand := rt_rand w'\<rparr>"
proof (cases "tries < maxTries")
  case False
  with assms have "w' = w" by (subst (asm) nextRandom_loop.simps) simp
  then show ?thesis by simp
next
  case True
  show ?thesis
  proof (cases "0 < gg_Width E (w_dc w) \<and> 0 < gg_Height E (w_dc w)")
    case True
    then obtain a b c n where
      "nextRandom_loop E w width height tries x y = Inr ((a, b, c), w\<lparr>rt_rand := rt_rand w + 2 * n\<rparr>)"
      using nextRandom_loop_result [of E w width height tries x y] by blast
    with assms have "w' = w\<lparr>rt_rand := rt_rand w + 2 * n\<rparr>" by simp
    then show ?thesis by simp
  next
    case False
    with \<open>tries < maxTries\<close> have "\<exists>a. nextRandom_loop E w width height tries x y = Inl a"
      by (subst nextRandom_loop.simps) (auto simp: Intn_def)
    with assms show ?thesis by auto
  qed
qed

lemma nextPos_frame:
  assumes "nextPos E w width height = Inr (r, w')"
  shows "w' = w\<lparr>rt_rand := rt_rand w', rt_search := rt_search w'\<rparr>"
proof (cases "randomPlacement w")
  case True
  with assms have "nextRandom_loop E w width height 0 0 0 = Inr (r, w')"
    by (simp add: nextPos_def nextRandom_def)
  from nextRandom_loop_frame [OF this] obtain n where eq: "w' = w\<lparr>rt_rand := n\<rparr>" by blast
  show ?thesis unfolding eq by simp
next
  case False
  with assms have "w' = w\<lparr>rt_search := rt_search w + 1\<rparr>"
    by (auto simp: nextPos_def split: option.splits)
  then show ?thesis by simp
qed


lemma setFont_frame:
  "setFont E w fsize = Inr w' \<Longrightarrow> w' = w\<lparr>w_dc := w_dc w', fonts := fonts w'\<rparr>"
  by (auto simp: setFont_def Let_def split: option.splits if_splits)

lemma Place_measure_frame:
  assumes "Place_measure E w wc = Inr (width, height, w3)"
  shows "w3 = w\<lparr>w_dc := w_dc w3, fonts := fonts w3, rt_rand := rt_rand w3\<rparr>"
proof -
  from assms obtain k w1 first rest where
    i: "Intn E w (int (length (Colors (opts w)))) = Inr (k, w1)"
    and l: "sortedWordList w1 = first # rest"
    and f: "setFont E (w1\<lparr>w_dc := gg_SetColor E (w_dc w1) (Colors (opts w1) ! nat k)\<rparr>)
              (fontSize (opts w1) (count wc) (count first)) = Inr w3"
    by (auto simp: Place_measure_def Let_def split: sum.splits list.splits prod.splits)
  from i have w1: "w1 = w\<lparr>rt_rand := rt_rand w + 1\<rparr>"
    by (auto simp: Intn_def split: if_splits)
  from setFont_frame [OF f] obtain d fs where
    "w3 = w1\<lparr>w_dc := gg_SetColor E (w_dc w1) (Colors (opts w1) ! nat k)\<rparr>\<lparr>w_dc := d, fonts := fs\<rparr>"
    by blast
  then show ?thesis unfolding w1 by simp
qed


section \<open>Properties of the registration\<close>

lemma addPreciseBoxes_grid:
  "w_grid (addPreciseBoxes E w pbs) = foldl (grid_Add E) (w_grid w) pbs"
  by (induction pbs arbitrary: w) (simp_all add: Let_def)

lemma go_trunc_less: "real_of_int (go_trunc r) < r + 1"
  by (simp add: go_trunc_def) linarith

lemma go_trunc_greater: "r - 1 < real_of_int (go_trunc r)"
  by (simp add: go_trunc_def) linarith

lemma sampleBox_within:
  assumes "i \<in> set (steps \<lfloor>Left b\<rfloor> (go_trunc (Right b)))"
    and "j \<in> set (steps (go_trunc (Bottom b)) (go_trunc (Top b)))"
  shows "Left b - 10 \<le> Left (sampleBox i j)" "Right (sampleBox i j) \<le> Right b + 10"
    "Bottom b - 10 \<le> Bottom (sampleBox i j)" "Top (sampleBox i j) \<le> Top b + 10"
proof -
  from assms have i: "\<lfloor>Left b\<rfloor> \<le> i" "i + 1 \<le> go_trunc (Right b)"
    and j: "go_trunc (Bottom b) \<le> j" "j + 1 \<le> go_trunc (Top b)"
    by (simp_all add: steps_set)
  have "Left b - 1 < real_of_int \<lfloor>Left b\<rfloor>" by linarith
  also have "\<dots> \<le> real_of_int i" using i(1) by simp
  finally show "Left b - 10 \<le> Left (sampleBox i j)" by (simp add: sampleBox_def)
  have "real_of_int (i + 1) \<le> real_of_int (go_trunc (Right b))" using i(2) by (simp only: of_int_le_iff)
  also have "\<dots> < Right b + 1" by (rule go_trunc_less)
  finally show "Right (sampleBox i j) \<le> Right b + 10" by (simp add: sampleBox_def)
  have "Bottom b - 1 < real_of_int (go_trunc (Bottom b))" by (rule go_trunc_greater)
  also have "\<dots> \<le> real_of_int j" using j(1) by simp
  finally show "Bottom b - 10 \<le> Bottom (sampleBox i j)" by (simp add: sampleBox_def)
  have "real_of_int (j + 1) \<le> real_of_int (go_trunc (Top b))" using j(2) by (simp only: of_int_le_iff)
  also have "\<dots> < Top b + 1" by (rule go_trunc_less)
  finally show "Top (sampleBox i j) \<le> Top b + 10" by (simp add: sampleBox_def)
qed

text \<open>
  C4. Let a word be measured with margins to \<open>width\<close> and \<open>height\<close> and let the search
  accept the position \<open>(x, y)\<close>, so that the accepted rectangle is the one centred there.
  The box of the word (lines 257 to 262) is that rectangle with its top raised by
  \<open>0.3 \<times> height\<close> and its bottom not below 0. If the height is at most 40, exactly that
  one box is added to the grid. If the height exceeds 40, the boxes added instead are the
  precise boxes of the refinement, in its order, and there may be none: each belongs to a
  pixel \<open>(i, j)\<close> sampled with a stride of 5 from the left and the bottom edge of the box
  of the word, is the sampled cell of 5 by 5 padded by 5 on every side, a square of 15
  by 15, and lies within the box of the word padded by 10. The samples that get a box
  are those the refinement records (lines 207 and 208).
\<close>

theorem Place_registers:
  assumes "Place_measure E w wc = Inr (width, height, w3)"
    and "nextPos E w3 width height = Inr ((x, y, True), w4)"
  shows "\<exists>w'. Place E w wc = Inr (True, w')
     \<and> (let box = \<lparr>Top = y + height / 2 + 0.3 * height, Left = x - width / 2,
                   Right = x + width / 2, Bottom = max (y - height / 2) 0\<rparr>;
             w5 = w4\<lparr>w_dc := gg_DrawStringAnchored E (w_dc w4) (word wc) x y 0.5 0.5\<rparr>;
             pbs = getPreciseBoundingBoxes E w5 box
         in (height \<le> 40 \<longrightarrow> w_grid w' = grid_Add E (w_grid w) box)
          \<and> (40 < height \<longrightarrow>
                w_grid w' = foldl (grid_Add E) (w_grid w) pbs
              \<and> set pbs =
                  {\<lparr>Top = real_of_int (j + 5) + 5, Left = real_of_int i - 5,
                    Right = real_of_int (i + 5) + 5, Bottom = real_of_int j - 5\<rparr> | i j.
                      \<lfloor>Left box\<rfloor> \<le> i \<and> i < go_trunc (Right box) \<and> (i - \<lfloor>Left box\<rfloor>) mod 5 = 0
                    \<and> go_trunc (Bottom box) \<le> j \<and> j < go_trunc (Top box)
                    \<and> (j - go_trunc (Bottom box)) mod 5 = 0
                    \<and> gg_At E (w_dc w5) i j \<noteq> defColor}
              \<and> (\<forall>pb\<in>set pbs.
                      Right pb - Left pb = 15 \<and> Top pb - Bottom pb = 15
                    \<and> Left box - 10 \<le> Left pb \<and> Right pb \<le> Right box + 10
                    \<and> Bottom box - 10 \<le> Bottom pb \<and> Top pb \<le> Top box + 10)))"
proof -
  let ?box = "placedBox x y width height"
  let ?w5 = "w4\<lparr>w_dc := gg_DrawStringAnchored E (w_dc w4) (word wc) x y 0.5 0.5\<rparr>"
  let ?pbs = "getPreciseBoundingBoxes E ?w5 ?box"
  let ?w' = "registerBox E ?w5 ?box height"
  have pl: "Place E w wc = Inr (True, ?w')"
    using assms by (simp add: Place_def Let_def)
  have g3: "w_grid w3 = w_grid w"
    by (subst Place_measure_frame [OF assms(1)]) simp
  have g4: "w_grid w4 = w_grid w3"
    by (subst nextPos_frame [OF assms(2)]) simp
  have g5: "w_grid ?w5 = w_grid w" using g3 g4 by simp
  have small: "w_grid ?w' = grid_Add E (w_grid w) ?box" if "height \<le> 40"
    using that g5 by (simp add: registerBox_def)
  have large: "w_grid ?w' = foldl (grid_Add E) (w_grid w) ?pbs" if "40 < height"
    using that g5 by (simp add: registerBox_def addPreciseBoxes_grid)
  have samples: "set ?pbs =
      {\<lparr>Top = real_of_int (j + 5) + 5, Left = real_of_int i - 5,
        Right = real_of_int (i + 5) + 5, Bottom = real_of_int j - 5\<rparr> | i j.
          \<lfloor>Left ?box\<rfloor> \<le> i \<and> i < go_trunc (Right ?box) \<and> (i - \<lfloor>Left ?box\<rfloor>) mod 5 = 0
        \<and> go_trunc (Bottom ?box) \<le> j \<and> j < go_trunc (Top ?box)
        \<and> (j - go_trunc (Bottom ?box)) mod 5 = 0
        \<and> gg_At E (w_dc ?w5) i j \<noteq> defColor}"
    unfolding getPreciseBoundingBoxes_set steps_set sampleBox_def by auto
  have each: "Right pb - Left pb = 15 \<and> Top pb - Bottom pb = 15
            \<and> Left ?box - 10 \<le> Left pb \<and> Right pb \<le> Right ?box + 10
            \<and> Bottom ?box - 10 \<le> Bottom pb \<and> Top pb \<le> Top ?box + 10"
    if "pb \<in> set ?pbs" for pb
  proof -
    from that obtain i j where pb: "pb = sampleBox i j"
      and i: "i \<in> set (steps \<lfloor>Left ?box\<rfloor> (go_trunc (Right ?box)))"
      and j: "j \<in> set (steps (go_trunc (Bottom ?box)) (go_trunc (Top ?box)))"
      unfolding getPreciseBoundingBoxes_set by blast
    have "Right (sampleBox i j) - Left (sampleBox i j) = 15"
      "Top (sampleBox i j) - Bottom (sampleBox i j) = 15"
      by (simp_all add: sampleBox_def)
    with sampleBox_within [OF i j] show ?thesis unfolding pb by simp
  qed
  show ?thesis
    unfolding Let_def placedBox_def [symmetric]
  proof (intro exI conjI impI ballI)
    show "Place E w wc = Inr (True, ?w')" by (rule pl)
  next
    assume "height \<le> 40"
    then show "w_grid ?w' = grid_Add E (w_grid w) ?box" by (rule small)
  next
    assume "40 < height"
    then show "w_grid ?w' = foldl (grid_Add E) (w_grid w) ?pbs" by (rule large)
  next
    show "set ?pbs =
      {\<lparr>Top = real_of_int (j + 5) + 5, Left = real_of_int i - 5,
        Right = real_of_int (i + 5) + 5, Bottom = real_of_int j - 5\<rparr> | i j.
          \<lfloor>Left ?box\<rfloor> \<le> i \<and> i < go_trunc (Right ?box) \<and> (i - \<lfloor>Left ?box\<rfloor>) mod 5 = 0
        \<and> go_trunc (Bottom ?box) \<le> j \<and> j < go_trunc (Top ?box)
        \<and> (j - go_trunc (Bottom ?box)) mod 5 = 0
        \<and> gg_At E (w_dc ?w5) i j \<noteq> defColor}"
      by (rule samples)
  next
    fix pb assume "pb \<in> set ?pbs"
    from each [OF this] show "Right pb - Left pb = 15" "Top pb - Bottom pb = 15"
      "Left ?box - 10 \<le> Left pb" "Right pb \<le> Right ?box + 10"
      "Bottom ?box - 10 \<le> Bottom pb" "Top pb \<le> Top ?box + 10"
      by simp_all
  qed
qed


section \<open>The search does not depend on the schedule\<close>

lemma scanRadii_agrees:
  assumes "\<forall>r\<in>set rs. done_at dn r \<longrightarrow> result_at results r = f r"
  shows "scanRadii x0 y0 results dn rs = Waiting \<and> (\<exists>r\<in>set rs. \<not> done_at dn r)
       \<or> scanRadii x0 y0 results dn rs =
           (case find (\<lambda>r. \<not> res_failed (f r)) rs of
              Some r \<Rightarrow> Decided (res_x (f r)) (res_y (f r)) True
            | None \<Rightarrow> Decided x0 y0 False)"
  using assms
proof (induction rs)
  case Nil
  then show ?case by simp
next
  case (Cons a rs)
  show ?case
  proof (cases "done_at dn a")
    case False
    then show ?thesis by simp
  next
    case True
    with Cons.prems have fa: "result_at results a = f a" by simp
    show ?thesis
    proof (cases "res_failed (f a)")
      case False
      with True fa show ?thesis by simp
    next
      case failed: True
      from Cons.prems have "\<forall>r\<in>set rs. done_at dn r \<longrightarrow> result_at results r = f r" by simp
      from Cons.IH [OF this] True fa failed show ?thesis by auto
    qed
  qed
qed

lemma aggregate_complete:
  assumes "ds \<noteq> []"
    and "\<forall>d\<in>set ds. d = f (res_radius d)"
    and "\<forall>r. done_at dn r \<longrightarrow> result_at results r = f r"
    and "\<forall>r\<in>set rs. done_at dn r \<or> r \<in> res_radius ` set ds"
  shows "aggregate x0 y0 rs results dn ds =
           Some (case find (\<lambda>r. \<not> res_failed (f r)) rs of
                   Some r \<Rightarrow> (res_x (f r), res_y (f r), True)
                 | None \<Rightarrow> (x0, y0, False))"
  using assms
proof (induction ds arbitrary: results dn)
  case Nil
  then show ?case by simp
next
  case (Cons d ds)
  let ?R = "results(res_radius d \<mapsto> d)" and ?D = "dn(res_radius d \<mapsto> True)"
  from Cons.prems(2) have d: "d = f (res_radius d)" by simp
  have inv: "\<forall>r. done_at ?D r \<longrightarrow> result_at ?R r = f r"
    using Cons.prems(3) d by (auto simp: done_at_def result_at_def)
  have cover: "\<forall>r\<in>set rs. done_at ?D r \<or> r \<in> res_radius ` set ds"
    using Cons.prems(4) by (auto simp: done_at_def)
  from inv have "\<forall>r\<in>set rs. done_at ?D r \<longrightarrow> result_at ?R r = f r" by blast
  from scanRadii_agrees [OF this, of x0 y0]
  consider (wait) "scanRadii x0 y0 ?R ?D rs = Waiting" "\<exists>r\<in>set rs. \<not> done_at ?D r"
    | (decided) "scanRadii x0 y0 ?R ?D rs =
           (case find (\<lambda>r. \<not> res_failed (f r)) rs of
              Some r \<Rightarrow> Decided (res_x (f r)) (res_y (f r)) True
            | None \<Rightarrow> Decided x0 y0 False)"
    by blast
  then show ?case
  proof cases
    case decided
    then show ?thesis by (simp add: Let_def split: option.splits)
  next
    case wait
    with cover have "ds \<noteq> []" by auto
    moreover from Cons.prems(2) have "\<forall>d\<in>set ds. d = f (res_radius d)" by simp
    ultimately have "aggregate x0 y0 rs ?R ?D ds =
           Some (case find (\<lambda>r. \<not> res_failed (f r)) rs of
                   Some r \<Rightarrow> (res_x (f r), res_y (f r), True)
                 | None \<Rightarrow> (x0, y0, False))"
      using inv cover by (rule Cons.IH)
    with wait(1) show ?thesis
      unfolding aggregate.simps Let_def by simp
  qed
qed

lemma done_at_empty [simp]: "\<not> done_at Map.empty r"
  by (simp add: done_at_def)

lemma received_covers:
  "res_radius ` set (received E w width height) = set (radii w)"
  by (auto simp: received_def testRadius_def testRadius_loop_radius image_iff)

lemma nextPos_radial:
  assumes "\<not> randomPlacement w" and "radii w \<noteq> []"
  shows "nextPos E w width height =
     Inr (case find (\<lambda>r. \<not> res_failed (testRadius E w r (ring E w r) width height)) (radii w) of
            Some r \<Rightarrow> (res_x (testRadius E w r (ring E w r) width height),
                       res_y (testRadius E w r (ring E w r) width height), True)
          | None \<Rightarrow> (w_width w, w_height w, False),
          w\<lparr>rt_search := rt_search w + 1\<rparr>)"
proof -
  let ?f = "\<lambda>r. testRadius E w r (ring E w r) width height"
  let ?ds = "received E w width height"
  from assms(2) have "res_radius ` set ?ds \<noteq> {}"
    unfolding received_covers by (cases "radii w") auto
  then have ne: "?ds \<noteq> []" by auto
  have f: "\<forall>d\<in>set ?ds. d = ?f (res_radius d)"
    by (auto simp: received_def testRadius_def testRadius_loop_radius)
  have cover: "\<forall>r\<in>set (radii w). done_at Map.empty r \<or> r \<in> res_radius ` set ?ds"
    unfolding received_covers by auto
  have "aggregate (w_width w) (w_height w) (radii w) Map.empty Map.empty ?ds =
           Some (case find (\<lambda>r. \<not> res_failed (?f r)) (radii w) of
                   Some r \<Rightarrow> (res_x (?f r), res_y (?f r), True)
                 | None \<Rightarrow> (w_width w, w_height w, False))"
    by (rule aggregate_complete [OF ne f _ cover]) simp
  with assms(1) show ?thesis by (simp add: nextPos_def)
qed

lemma nextPos_deadlock:
  assumes "\<not> randomPlacement w" and "radii w = []"
  shows "nextPos E w width height = Inl Deadlock"
  using assms by (simp add: nextPos_def received_def)


section \<open>A placement on the reference cloud\<close>

lemma ref_measure_a:
  "Place_measure ref_collab (ref_cloud [(''a'', 1)]) \<lparr>word = ''a'', count = 1\<rparr> =
     Inr (25, 45,
          (ref_cloud [(''a'', 1)])
          \<lparr>rt_rand := Suc 0,
             fonts := [Finite 40 \<mapsto> Finite 40],
             w_dc := \<lparr>cv_width = 60, cv_height = 80, cv_pen = RGBA 0 0 0 0,
                       cv_face = Some (Finite 40), cv_path = None,
                       cv_pixels = \<lambda>i j. RGBA 255 255 255 255\<rparr>\<rparr>)"
  by (simp add: Place_measure_def Intn_def ref_cloud_simps sortWordList_def trimSpaces_def
      defaultOptions_def fontSize_def fdiv_def setFont_def Let_def)
     (simp add: ref_collab_def ref_measure_def ref_cloud_rest)

lemma ref_measure_b:
  "Place_measure ref_collab (ref_cloud [(''a'', 2), (''b'', 1)]) \<lparr>word = ''b'', count = 1\<rparr> =
     Inr (15, 25,
          (ref_cloud [(''a'', 2), (''b'', 1)])
          \<lparr>rt_rand := Suc 0,
             fonts := [Finite 20 \<mapsto> Finite 20],
             w_dc := \<lparr>cv_width = 60, cv_height = 80, cv_pen = RGBA 0 0 0 0,
                       cv_face = Some (Finite 20), cv_path = None,
                       cv_pixels = \<lambda>i j. RGBA 255 255 255 255\<rparr>\<rparr>)"
  by (simp add: Place_measure_def Intn_def ref_cloud_simps sortWordList_def trimSpaces_def
      defaultOptions_def fontSize_def fdiv_def setFont_def Let_def)
     (simp add: ref_collab_def ref_measure_def ref_cloud_rest)

lemma ref_ring_1: "ring ref_collab ((ref_cloud wl)\<lparr>rt_rand := a, fonts := b, w_dc := c\<rparr>) 1
    = ref_circle 30 40 1 512"
  by (simp add: ring_def ref_cloud_circles) (simp add: ref_collab_def)

lemma ref_nextPos_centre:
  assumes "(width = 25 \<or> width = 15 \<or> width = 5) \<and> (height = 45 \<or> height = 25)"
  shows "nextPos ref_collab ((ref_cloud wl)\<lparr>rt_rand := Suc 0, fonts := fs, w_dc := d\<rparr>) width height =
     Inr ((31, 40, True), (ref_cloud wl)\<lparr>rt_rand := Suc 0, fonts := fs, w_dc := d, rt_search := 1\<rparr>)"
proof -
  let ?w = "(ref_cloud wl)\<lparr>rt_rand := Suc 0, fonts := fs, w_dc := d\<rparr>"
  have t: "testRadius ref_collab ?w 1 (ring ref_collab ?w 1) width height =
             \<lparr>res_radius = 1, res_x = 31, res_y = 40, res_failed = False\<rparr>"
    unfolding ref_ring_1 using assms
    by (auto simp: testRadius_def available_def centredBox_def ref_cloud_canvas ref_circle_def
          ref_collab_def ref_fits_def)
  have "nextPos ref_collab ?w width height =
     Inr (case find (\<lambda>r. \<not> res_failed (testRadius ref_collab ?w r (ring ref_collab ?w r) width height)) (radii ?w) of
            Some r \<Rightarrow> (res_x (testRadius ref_collab ?w r (ring ref_collab ?w r) width height),
                       res_y (testRadius ref_collab ?w r (ring ref_collab ?w r) width height), True)
          | None \<Rightarrow> (w_width ?w, w_height ?w, False),
          ?w\<lparr>rt_search := rt_search ?w + 1\<rparr>)"
  proof (rule nextPos_radial)
    show "\<not> randomPlacement ?w" by (simp add: ref_cloud_rest)
    show "radii ?w \<noteq> []" by (simp add: ref_cloud_radii)
  qed
  also have "radii ?w = 1 # [6, 11, 16, 21, 26, 31, 36, 41, 46, 51, 56, 61, 66, 71, 76, 81, 86, 91, 96]"
    by (simp add: ref_cloud_radii)
  finally show ?thesis
    by (simp add: t ref_cloud_rest)
qed

lemma ref_measure_blank:
  "Place_measure ref_collab (ref_cloud [(''  '', 1)]) \<lparr>word = [], count = 1\<rparr> =
     Inr (5, 45,
          (ref_cloud [(''  '', 1)])
          \<lparr>rt_rand := Suc 0,
             fonts := [Finite 40 \<mapsto> Finite 40],
             w_dc := \<lparr>cv_width = 60, cv_height = 80, cv_pen = RGBA 0 0 0 0,
                       cv_face = Some (Finite 40), cv_path = None,
                       cv_pixels = \<lambda>i j. RGBA 255 255 255 255\<rparr>\<rparr>)"
  by (simp add: Place_measure_def Intn_def ref_cloud_simps sortWordList_def trimSpaces_def
      defaultOptions_def fontSize_def fdiv_def setFont_def Let_def)
     (simp add: ref_collab_def ref_measure_def ref_cloud_rest)

lemma ref_steps:
  "steps 18 43 = [18, 23, 28, 33, 38]"
  "steps 28 33 = [28]"
  "steps 17 76 = [17, 22, 27, 32, 37, 42, 47, 52, 57, 62, 67, 72]"
  by (simp_all add: steps.simps)

text \<open>
  The word \<open>a\<close> alone is measured to 25 by 45 and accepted at \<open>(31, 40)\<close>: the one
  sample that meets its ink, the pixel \<open>(33, 42)\<close>, gives the one box registered. The word
  \<open>b\<close>, of half the count of the first word, is measured to 15 by 25 and accepted at
  \<open>(31, 40)\<close>: the one box registered has its top at \<open>40 + 25 / 2 + 0.3 \<times> 25 = 60\<close>.
\<close>

theorem Place_registers_witness:
  "\<exists>w3 w4 w' v3 v4 v'.
      Place_measure ref_collab (ref_cloud [(''a'', 1)]) \<lparr>word = ''a'', count = 1\<rparr> = Inr (25, 45, w3)
    \<and> nextPos ref_collab w3 25 45 = Inr ((31, 40, True), w4)
    \<and> Place ref_collab (ref_cloud [(''a'', 1)]) \<lparr>word = ''a'', count = 1\<rparr> = Inr (True, w')
    \<and> w_grid w' = [\<lparr>Top = 52, Left = 28, Right = 43, Bottom = 37\<rparr>]
    \<and> Place_measure ref_collab (ref_cloud [(''a'', 2), (''b'', 1)]) \<lparr>word = ''b'', count = 1\<rparr> =
        Inr (15, 25, v3)
    \<and> nextPos ref_collab v3 15 25 = Inr ((31, 40, True), v4)
    \<and> Place ref_collab (ref_cloud [(''a'', 2), (''b'', 1)]) \<lparr>word = ''b'', count = 1\<rparr> = Inr (True, v')
    \<and> w_grid v' = [\<lparr>Top = 60, Left = 47 / 2, Right = 77 / 2, Bottom = 55 / 2\<rparr>]"
proof -
  let ?d = "\<lparr>cv_width = 60, cv_height = 80, cv_pen = RGBA 0 0 0 0,
            cv_face = Some (Finite 40), cv_path = None,
            cv_pixels = \<lambda>i j. RGBA 255 255 255 255\<rparr>"
  let ?w3 = "(ref_cloud [(''a'', 1)])\<lparr>rt_rand := Suc 0, fonts := [Finite 40 \<mapsto> Finite 40], w_dc := ?d\<rparr>"
  let ?w4 = "?w3\<lparr>rt_search := 1\<rparr>"
  let ?w5 = "?w4\<lparr>w_dc := gg_DrawStringAnchored ref_collab (w_dc ?w4)
                       (word \<lparr>word = ''a'', count = 1\<rparr>) 31 40 0.5 0.5\<rparr>"
  let ?e = "\<lparr>cv_width = 60, cv_height = 80, cv_pen = RGBA 0 0 0 0,
            cv_face = Some (Finite 20), cv_path = None,
            cv_pixels = \<lambda>i j. RGBA 255 255 255 255\<rparr>"
  let ?v3 = "(ref_cloud [(''a'', 2), (''b'', 1)])
               \<lparr>rt_rand := Suc 0, fonts := [Finite 20 \<mapsto> Finite 20], w_dc := ?e\<rparr>"
  let ?v4 = "?v3\<lparr>rt_search := 1\<rparr>"
  have m: "Place_measure ref_collab (ref_cloud [(''a'', 1)]) \<lparr>word = ''a'', count = 1\<rparr> =
             Inr (25, 45, ?w3)"
    by (rule ref_measure_a)
  have n: "nextPos ref_collab ?w3 25 45 = Inr ((31, 40, True), ?w4)"
    by (rule ref_nextPos_centre) simp
  have box: "\<lparr>Top = 40 + 45 / 2 + 0.3 * 45, Left = 31 - 25 / 2, Right = 31 + 25 / 2,
              Bottom = max (40 - 45 / 2) 0\<rparr> =
             \<lparr>Top = 76, Left = 37 / 2, Right = 87 / 2, Bottom = 35 / 2 :: real\<rparr>"
    by simp
  have at: "gg_At ref_collab (w_dc ?w5) =
      (\<lambda>a b. if \<bar>a - 31\<bar> \<le> 2 \<and> \<bar>b - 40\<bar> \<le> 2 then RGBA 0 0 0 0 else RGBA 255 255 255 255)"
    by (simp add: ref_collab_def cv_paint_def cong: if_cong)
  have pbs: "getPreciseBoundingBoxes ref_collab ?w5
               \<lparr>Top = 76, Left = 37 / 2, Right = 87 / 2, Bottom = 35 / 2\<rparr> =
      [\<lparr>Top = 52, Left = 28, Right = 43, Bottom = 37\<rparr>]"
    unfolding getPreciseBoundingBoxes_def precise_rows_eq at
    by (simp add: go_trunc_def ref_steps defColor_def sampleBox_def)
  from Place_registers [OF m n] obtain w' where
    p: "Place ref_collab (ref_cloud [(''a'', 1)]) \<lparr>word = ''a'', count = 1\<rparr> = Inr (True, w')"
    and g: "w_grid w' = foldl (grid_Add ref_collab) (w_grid (ref_cloud [(''a'', 1)]))
                          (getPreciseBoundingBoxes ref_collab ?w5
                             \<lparr>Top = 76, Left = 37 / 2, Right = 87 / 2, Bottom = 35 / 2\<rparr>)"
    unfolding Let_def box by auto
  from g have gw: "w_grid w' = [\<lparr>Top = 52, Left = 28, Right = 43, Bottom = 37\<rparr>]"
    unfolding pbs by (simp add: ref_cloud_canvas ref_collab_def)
  have m': "Place_measure ref_collab (ref_cloud [(''a'', 2), (''b'', 1)]) \<lparr>word = ''b'', count = 1\<rparr> =
             Inr (15, 25, ?v3)"
    by (rule ref_measure_b)
  have n': "nextPos ref_collab ?v3 15 25 = Inr ((31, 40, True), ?v4)"
    by (rule ref_nextPos_centre) simp
  from Place_registers [OF m' n'] obtain v' where
    p': "Place ref_collab (ref_cloud [(''a'', 2), (''b'', 1)]) \<lparr>word = ''b'', count = 1\<rparr> = Inr (True, v')"
    and g': "w_grid v' = grid_Add ref_collab (w_grid (ref_cloud [(''a'', 2), (''b'', 1)]))
               \<lparr>Top = 40 + 25 / 2 + 0.3 * 25, Left = 31 - 15 / 2, Right = 31 + 15 / 2,
                Bottom = max (40 - 25 / 2) 0\<rparr>"
    unfolding Let_def by auto
  from g' have gv: "w_grid v' = [\<lparr>Top = 60, Left = 47 / 2, Right = 77 / 2, Bottom = 55 / 2\<rparr>]"
    by (simp add: ref_cloud_canvas ref_collab_def)
  from m n p gw m' n' p' gv show ?thesis by blast
qed

text \<open>
  The word \<open>b\<close> above has a height of 25 and is accepted at \<open>(31, 40)\<close>, so the accepted
  rectangle reaches up to \<open>52.5\<close>; the one box registered reaches up to 60 and is not
  that rectangle. And a frequency map that holds one entry whose word is two spaces:
  trimmed, it is the empty word; its rectangle has the height 45, it is accepted at
  \<open>(31, 40)\<close>, nothing is drawn, and no box at all is added to the grid.
\<close>

theorem Place_registers_not_the_rectangle:
  "fst (snd (projr (Place_measure ref_collab (ref_cloud [(''a'', 2), (''b'', 1)])
                      \<lparr>word = ''b'', count = 1\<rparr>))) = 25
   \<and> fst (projr (nextPos ref_collab
                    (snd (snd (projr (Place_measure ref_collab (ref_cloud [(''a'', 2), (''b'', 1)])
                                        \<lparr>word = ''b'', count = 1\<rparr>)))) 15 25)) = (31, 40, True)
   \<and> fst (projr (Place ref_collab (ref_cloud [(''a'', 2), (''b'', 1)]) \<lparr>word = ''b'', count = 1\<rparr>)) = True
   \<and> w_grid (snd (projr (Place ref_collab (ref_cloud [(''a'', 2), (''b'', 1)])
                            \<lparr>word = ''b'', count = 1\<rparr>))) =
       [\<lparr>Top = 60, Left = 47 / 2, Right = 77 / 2, Bottom = 55 / 2\<rparr>]
   \<and> w_grid (snd (projr (Place ref_collab (ref_cloud [(''a'', 2), (''b'', 1)])
                            \<lparr>word = ''b'', count = 1\<rparr>))) \<noteq>
       [\<lparr>Top = 40 + 25 / 2, Left = 31 - 15 / 2, Right = 31 + 15 / 2, Bottom = 40 - 25 / 2\<rparr>]
   \<and> sortedWordList (ref_cloud [(''  '', 1)]) = [\<lparr>word = [], count = 1\<rparr>]
   \<and> fst (snd (projr (Place_measure ref_collab (ref_cloud [(''  '', 1)]) \<lparr>word = [], count = 1\<rparr>))) = 45
   \<and> \<not> isl (Place ref_collab (ref_cloud [(''  '', 1)]) \<lparr>word = [], count = 1\<rparr>)
   \<and> fst (projr (Place ref_collab (ref_cloud [(''  '', 1)]) \<lparr>word = [], count = 1\<rparr>)) = True
   \<and> w_grid (snd (projr (Place ref_collab (ref_cloud [(''  '', 1)]) \<lparr>word = [], count = 1\<rparr>))) = []"
proof -
  let ?d = "\<lparr>cv_width = 60, cv_height = 80, cv_pen = RGBA 0 0 0 0,
            cv_face = Some (Finite 40), cv_path = None,
            cv_pixels = \<lambda>i j. RGBA 255 255 255 255\<rparr>"
  let ?w3 = "(ref_cloud [(''  '', 1)])\<lparr>rt_rand := Suc 0, fonts := [Finite 40 \<mapsto> Finite 40], w_dc := ?d\<rparr>"
  let ?w5 = "?w3\<lparr>rt_search := 1, w_dc := ?d\<rparr>"
  let ?e = "\<lparr>cv_width = 60, cv_height = 80, cv_pen = RGBA 0 0 0 0,
            cv_face = Some (Finite 20), cv_path = None,
            cv_pixels = \<lambda>i j. RGBA 255 255 255 255\<rparr>"
  let ?v3 = "(ref_cloud [(''a'', 2), (''b'', 1)])
               \<lparr>rt_rand := Suc 0, fonts := [Finite 20 \<mapsto> Finite 20], w_dc := ?e\<rparr>"
  have s: "sortedWordList (ref_cloud [(''  '', 1)]) = [\<lparr>word = [], count = 1\<rparr>]"
    by (simp add: ref_cloud_rest sortWordList_def trimSpaces_def)
  have box: "placedBox 31 40 5 45 = \<lparr>Top = 76, Left = 57 / 2, Right = 67 / 2, Bottom = 35 / 2\<rparr>"
    by (simp add: placedBox_def)
  have pbs: "getPreciseBoundingBoxes ref_collab w (placedBox 31 40 5 45) = []" if "w_dc w = ?d" for w
    unfolding getPreciseBoundingBoxes_def precise_rows_eq box that
    by (simp add: go_trunc_def ref_steps defColor_def) (simp add: ref_collab_def)
  have "Place ref_collab (ref_cloud [(''  '', 1)]) \<lparr>word = [], count = 1\<rparr> =
          Inr (True, registerBox ref_collab ?w5 (placedBox 31 40 5 45) 45)"
    unfolding Place_def ref_measure_blank
    by (simp add: ref_nextPos_centre) (simp add: ref_collab_def)
  then have blank: "Place ref_collab (ref_cloud [(''  '', 1)]) \<lparr>word = [], count = 1\<rparr> = Inr (True, ?w5)"
    by (simp add: registerBox_def pbs)
  have n: "nextPos ref_collab ?v3 15 25 = Inr ((31, 40, True), ?v3\<lparr>rt_search := 1\<rparr>)"
    by (rule ref_nextPos_centre) simp
  have "\<exists>v'. Place ref_collab (ref_cloud [(''a'', 2), (''b'', 1)]) \<lparr>word = ''b'', count = 1\<rparr> =
          Inr (True, v') \<and> w_grid v' = [\<lparr>Top = 60, Left = 47 / 2, Right = 77 / 2, Bottom = 55 / 2\<rparr>]"
    unfolding Place_def ref_measure_b
    by (simp add: n registerBox_def placedBox_def ref_cloud_canvas) (simp add: ref_collab_def)
  then obtain v' where
    small: "Place ref_collab (ref_cloud [(''a'', 2), (''b'', 1)]) \<lparr>word = ''b'', count = 1\<rparr> = Inr (True, v')"
    and gv: "w_grid v' = [\<lparr>Top = 60, Left = 47 / 2, Right = 77 / 2, Bottom = 55 / 2\<rparr>]"
    by blast
  show ?thesis
    unfolding small blank ref_measure_b ref_measure_blank
    by (simp add: s gv n ref_cloud_canvas)
qed


section \<open>Properties of the loop of Draw\<close>

lemma misses_after_snoc:
  "misses_after m (bs @ [b]) = (if b then 0 else misses_after m bs + 1)"
  by (simp add: misses_after_def)

lemma misses_after_Cons:
  "misses_after m (b # bs) = misses_after (if b then 0 else m + 1) bs"
  by (simp add: misses_after_def)

lemma misses_after_trailing:
  "misses_after 0 bs = length (takeWhile (\<lambda>b. \<not> b) (rev bs))"
  by (induction bs rule: rev_induct) (simp_all add: misses_after_snoc, simp add: misses_after_def)

lemma Draw_loop_append:
  assumes "place_all place w wcs = Inr (bs, w')"
    and "\<forall>n<length bs. misses_after m (take n bs) \<le> 10"
    and "10 < misses_after m bs \<or> rest = []"
    and "m \<le> 10"
  shows "Draw_loop place w m (wcs @ rest) = Inr w'"
  using assms
proof (induction wcs arbitrary: w m bs)
  case Nil
  then show ?case by (simp add: misses_after_def)
next
  case (Cons wc wcs)
  from Cons.prems(1) obtain b w1 bs1 where
    p: "place w wc = Inr (b, w1)" and r: "place_all place w1 wcs = Inr (bs1, w')"
    and bs: "bs = b # bs1"
    by (auto split: sum.splits)
  let ?m = "if b then 0 else m + 1"
  have after: "misses_after m (take (Suc n) bs) = misses_after ?m (take n bs1)" for n
    by (simp add: bs misses_after_Cons)
  show ?case
  proof (cases "wcs = []")
    case True
    with r have e: "bs1 = []" "w' = w1" by simp_all
    with Cons.prems(3) bs have "10 < ?m \<or> rest = []" by (simp add: misses_after_def)
    with p True e Cons.prems(4) show ?thesis by (auto simp: Let_def)
  next
    case False
    with r have ne: "bs1 \<noteq> []" by (cases wcs) (auto split: sum.splits)
    then have "Suc 0 < length bs" by (cases bs1) (simp_all add: bs)
    with Cons.prems(2) have "misses_after m (take (Suc 0) bs) \<le> 10" by blast
    then have m1: "?m \<le> 10" by (simp add: bs misses_after_def)
    have small: "\<forall>n<length bs1. misses_after ?m (take n bs1) \<le> 10"
    proof (intro allI impI)
      fix n assume "n < length bs1"
      then have "Suc n < length bs" by (simp add: bs)
      with Cons.prems(2) have "misses_after m (take (Suc n) bs) \<le> 10" by blast
      then show "misses_after ?m (take n bs1) \<le> 10" by (simp only: after)
    qed
    have last: "10 < misses_after ?m bs1 \<or> rest = []"
      using Cons.prems(3) by (simp add: bs misses_after_Cons)
    from Cons.IH [OF r small last m1] have "Draw_loop place w1 ?m (wcs @ rest) = Inr w'" .
    with p m1 show ?thesis by (auto simp: Let_def)
  qed
qed


lemma misses_after_eleven:
  assumes "\<forall>n<length bs. misses_after 0 (take n bs) \<le> 10" and "10 < misses_after 0 bs"
  shows "misses_after 0 bs = 11" "11 \<le> length bs" "\<forall>b\<in>set (drop (length bs - 11) bs). \<not> b"
proof -
  from assms(2) have ne: "bs \<noteq> []" by (auto simp: misses_after_def)
  then have split: "bs = butlast bs @ [last bs]" by simp
  from ne assms(1) have "misses_after 0 (take (length bs - 1) bs) \<le> 10"
    by (cases bs) auto
  then have "misses_after 0 (butlast bs) \<le> 10" by (simp add: butlast_conv_take)
  moreover have "misses_after 0 bs = (if last bs then 0 else misses_after 0 (butlast bs) + 1)"
    by (subst split) (simp only: misses_after_snoc)
  ultimately show eleven: "misses_after 0 bs = 11" using assms(2) by (simp split: if_splits)
  let ?t = "takeWhile (\<lambda>b. \<not> b) (rev bs)"
  from eleven have len: "length ?t = 11" by (simp add: misses_after_trailing)
  have "length ?t \<le> length (rev bs)" by (rule length_takeWhile_le)
  with len show "11 \<le> length bs" by simp
  have "?t = take 11 (rev bs)"
    using takeWhile_eq_take [of "\<lambda>b. \<not> b" "rev bs"] len by simp
  then have "set (take 11 (rev bs)) = set ?t" by simp
  moreover have "set (drop (length bs - 11) bs) = set (take 11 (rev bs))"
    by (simp add: take_rev)
  ultimately have "set (drop (length bs - 11) bs) = set ?t" by simp
  then show "\<forall>b\<in>set (drop (length bs - 11) bs). \<not> b"
    by (auto dest: set_takeWhileD)
qed

text \<open>
  C3. Let \<^verbatim>\<open>Draw\<close> meet the words \<open>wcs\<close> first and the words \<open>rest\<close> after them, let
  placing the words \<open>wcs\<close> in turn give the outcomes \<open>bs\<close>, and count the misses
  consecutively: a miss adds one, a success resets to zero. If the counter is at most 10
  after every proper prefix of the outcomes, and exceeds 10 after all of them (or no
  words remain), then \<^verbatim>\<open>Draw\<close> returns normally the object the last of these placements
  left, and no word of \<open>rest\<close> is processed. The counter exceeds 10 exactly when it has
  reached 11, and then the last 11 outcomes are misses.
\<close>

theorem Draw_miss_cap:
  assumes "sortedWordList w = wcs @ rest"
    and "place_all (Place E) w wcs = Inr (bs, w')"
    and "\<forall>n<length bs. misses_after 0 (take n bs) \<le> 10"
    and "10 < misses_after 0 bs \<or> rest = []"
  shows "Draw E w = Inr w'
     \<and> (10 < misses_after 0 bs \<longrightarrow>
            misses_after 0 bs = 11 \<and> 11 \<le> length bs
          \<and> (\<forall>b\<in>set (drop (length bs - 11) bs). \<not> b))"
proof
  show "Draw E w = Inr w'"
    unfolding Draw_def assms(1)
    by (rule Draw_loop_append [OF assms(2,3,4)]) simp
  show "10 < misses_after 0 bs \<longrightarrow>
            misses_after 0 bs = 11 \<and> 11 \<le> length bs
          \<and> (\<forall>b\<in>set (drop (length bs - 11) bs). \<not> b)"
    using misses_after_eleven [OF assms(3)] by blast
qed


section \<open>What a placement leaves unchanged\<close>

lemma addPreciseBoxes_frame:
  "addPreciseBoxes E w pbs =
     w\<lparr>w_grid := w_grid (addPreciseBoxes E w pbs), w_dc := w_dc (addPreciseBoxes E w pbs)\<rparr>"
proof (induction pbs arbitrary: w)
  case Nil
  show ?case by simp
next
  case (Cons pb pbs)
  let ?w2 = "if Debug (opts w)
             then w\<lparr>w_grid := grid_Add E (w_grid w) pb,
                    w_dc := gg_Stroke E (gg_DrawRectangle E (w_dc w)
                                    (box_x E pb) (box_y E pb) (box_w E pb) (box_h E pb))\<rparr>
             else w\<lparr>w_grid := grid_Add E (w_grid w) pb\<rparr>"
  have step: "addPreciseBoxes E w (pb # pbs) = addPreciseBoxes E ?w2 pbs"
    by (simp add: Let_def)
  obtain g d where "addPreciseBoxes E ?w2 pbs = ?w2\<lparr>w_grid := g, w_dc := d\<rparr>"
    using Cons.IH [of ?w2] by metis
  then have "addPreciseBoxes E w (pb # pbs) = w\<lparr>w_grid := g, w_dc := d\<rparr>"
    unfolding step by (simp split: if_splits)
  then show ?case by simp
qed

lemma Place_frame:
  assumes "Place E w wc = Inr (b, w')"
  shows "w' = w\<lparr>w_grid := w_grid w', w_dc := w_dc w', fonts := fonts w',
                 rt_rand := rt_rand w', rt_search := rt_search w'\<rparr>"
proof -
  from assms obtain width height w3 x y space w4 where
    m: "Place_measure E w wc = Inr (width, height, w3)"
    and n: "nextPos E w3 width height = Inr ((x, y, space), w4)"
    and r: "w' = (if \<not> space then w4
                 else registerBox E (w4\<lparr>w_dc := gg_DrawStringAnchored E (w_dc w4) (word wc) x y 0.5 0.5\<rparr>)
                        (placedBox x y width height) height)"
    by (auto simp: Place_def Let_def split: sum.splits prod.splits if_splits)
  from Place_measure_frame [OF m] obtain d fs k where
    w3: "w3 = w\<lparr>w_dc := d, fonts := fs, rt_rand := k\<rparr>" by blast
  from nextPos_frame [OF n] obtain k' j where
    w4: "w4 = w3\<lparr>rt_rand := k', rt_search := j\<rparr>" by blast
  let ?w5 = "w4\<lparr>w_dc := gg_DrawStringAnchored E (w_dc w4) (word wc) x y 0.5 0.5\<rparr>"
  obtain g d' where reg: "registerBox E ?w5 (placedBox x y width height) height = ?w5\<lparr>w_grid := g, w_dc := d'\<rparr>"
  proof (cases "40 < height")
    case True
    with addPreciseBoxes_frame [of E ?w5] that show ?thesis
      unfolding registerBox_def by (metis (no_types))
  next
    case False
    have "?w5\<lparr>w_grid := grid_Add E (w_grid ?w5) (placedBox x y width height)\<rparr> =
          ?w5\<lparr>w_grid := grid_Add E (w_grid ?w5) (placedBox x y width height), w_dc := w_dc ?w5\<rparr>"
      by simp
    with False that show ?thesis unfolding registerBox_def by (simp only: if_False)
  qed
  show ?thesis
  proof (cases space)
    case False
    with r have "w' = w4" by simp
    then show ?thesis unfolding w4 w3 by simp
  next
    case True
    with r reg have "w' = ?w5\<lparr>w_grid := g, w_dc := d'\<rparr>" by simp
    then show ?thesis unfolding w4 w3 by simp
  qed
qed


section \<open>Placements on the reference cloud\<close>

lemma testRadius_unavailable:
  assumes "\<forall>p\<in>set points. \<not> available E w (px p) (py p) width height"
  shows "res_failed (testRadius E w r points width height)"
proof -
  from assms have "find (\<lambda>p. available E w (px p) (py p) width height) points = None"
    by (simp add: find_None_iff)
  then show ?thesis
    unfolding testRadius_def testRadius_loop_find by simp
qed

lemma ref_ready_cloud: "ref_ready (ref_cloud wl)"
  by (simp add: ref_ready_def ref_cloud_simps map_le_def)

lemma ref_ready_fields:
  assumes "ref_ready w"
  shows "opts w = defaultOptions\<lparr>Width := 60, Height := 80, FontMaxSize := 40, FontMinSize := 4\<rparr>"
    "radii w = [1, 6, 11, 16, 21, 26, 31, 36, 41, 46, 51, 56, 61, 66, 71, 76, 81, 86, 91, 96]"
    "w_width w = 60" "w_height w = 80" "\<not> randomPlacement w"
    "ring ref_collab w 1 = ref_circle 30 40 1 512"
  using assms
  by (simp_all add: ref_ready_def ref_cloud_rest ref_cloud_radii ring_def ref_cloud_circles)
     (simp add: ref_collab_def)

lemma ref_setFont:
  assumes "ref_ready w" and "h = 20 \<or> h = 40"
  shows "setFont ref_collab w (Finite h) =
           Inr (w\<lparr>fonts := (fonts w)(Finite h \<mapsto> Finite h),
                  w_dc := (w_dc w)\<lparr>cv_face := Some (Finite h)\<rparr>\<rparr>)"
proof (cases "fonts w (Finite h)")
  case None
  have "gg_LoadFontFace ref_collab (FontFile (opts w)) (Finite h) = Some (Finite h)"
    by (simp add: ref_ready_fields(1) [OF assms(1)] defaultOptions_def) (simp add: ref_collab_def)
  with None show ?thesis
    by (simp add: setFont_def Let_def) (simp add: ref_collab_def)
next
  case (Some f)
  from assms(1) have "fonts w \<subseteq>\<^sub>m [Finite 20 \<mapsto> Finite 20, Finite 40 \<mapsto> Finite 40]"
    by (simp add: ref_ready_def)
  with Some have "[Finite 20 \<mapsto> Finite 20, Finite 40 \<mapsto> Finite 40] (Finite h) = Some f"
    by (metis domI map_le_def)
  with assms(2) have f: "f = Finite h" by auto
  with Some have "(fonts w)(Finite h \<mapsto> Finite h) = fonts w" by (simp add: fun_upd_idem)
  with Some f show ?thesis
    by (simp add: setFont_def Let_def) (simp add: ref_collab_def)
qed

lemma ref_Place_measure:
  assumes "ref_ready w" and "sortedWordList w = first # rest" and "count first = 2"
    and "count wc = 1 \<or> count wc = 2"
  shows "Place_measure ref_collab w wc =
     Inr (10 * real_of_int (count wc) * real (length (word wc)) + 5, 20 * real_of_int (count wc) + 5,
          w\<lparr>rt_rand := Suc (rt_rand w),
            fonts := (fonts w)(Finite (20 * real_of_int (count wc)) \<mapsto> Finite (20 * real_of_int (count wc))),
            w_dc := (w_dc w)\<lparr>cv_pen := RGBA 0 0 0 0, cv_face := Some (Finite (20 * real_of_int (count wc)))\<rparr>\<rparr>)"
proof -
  let ?h = "20 * real_of_int (count wc)"
  let ?w2 = "w\<lparr>rt_rand := Suc (rt_rand w),
               w_dc := gg_SetColor ref_collab (w_dc w) (Colors (opts w) ! 0)\<rparr>"
  note o = ref_ready_fields(1) [OF assms(1)]
  have i: "Intn ref_collab w (int (length (Colors (opts w)))) = Inr (0, w\<lparr>rt_rand := rt_rand w + 1\<rparr>)"
    by (simp add: Intn_def o defaultOptions_def)
  have c: "gg_SetColor ref_collab (w_dc w) (Colors (opts w) ! 0) = (w_dc w)\<lparr>cv_pen := RGBA 0 0 0 0\<rparr>"
    by (simp add: o defaultOptions_def) (simp add: ref_collab_def)
  have fs: "fontSize (opts w) (count wc) (count first) = Finite ?h"
    using assms(3,4) by (auto simp: fontSize_def fdiv_def o defaultOptions_def)
  have r2: "ref_ready ?w2" using assms(1) by (simp add: ref_ready_def)
  have h: "?h = 20 \<or> ?h = 40" using assms(4) by auto
  have sf: "setFont ref_collab ?w2 (Finite ?h) =
           Inr (?w2\<lparr>fonts := (fonts ?w2)(Finite ?h \<mapsto> Finite ?h),
                  w_dc := (w_dc ?w2)\<lparr>cv_face := Some (Finite ?h)\<rparr>\<rparr>)"
    by (rule ref_setFont [OF r2 h])
  have ms: "gg_MeasureString ref_collab (d\<lparr>cv_face := Some (Finite ?h)\<rparr>) (word wc) =
          (?h * real (length (word wc)) / 2, ?h)" for d
    by (simp add: ref_collab_def ref_measure_def)
  have "Place_measure ref_collab w wc =
      (case setFont ref_collab ?w2 (Finite ?h) of
         Inl a \<Rightarrow> Inl a
       | Inr w3 \<Rightarrow> (let (mw, mh) = gg_MeasureString ref_collab (w_dc w3) (word wc)
                    in Inr (mw + 5, mh + 5, w3)))"
    unfolding Place_measure_def i by (simp add: Let_def assms(2) fs)
  also have "\<dots> = Inr (?h * real (length (word wc)) / 2 + 5, ?h + 5,
               ?w2\<lparr>fonts := (fonts ?w2)(Finite ?h \<mapsto> Finite ?h),
                  w_dc := (w_dc ?w2)\<lparr>cv_face := Some (Finite ?h)\<rparr>\<rparr>)"
    unfolding sf by (simp add: ms)
  finally show ?thesis by (simp add: c)
qed


lemma ref_radial_premises:
  assumes "ref_ready w"
  shows "\<not> randomPlacement w" "radii w \<noteq> []"
  using assms
  by (simp_all only: ref_ready_fields(2,5) [OF assms]) simp_all

lemma ref_nextPos_wide:
  assumes "ref_ready w" and "60 < width"
  shows "nextPos ref_collab w width height =
           Inr ((60, 80, False), w\<lparr>rt_search := rt_search w + 1\<rparr>)"
proof -
  have "\<not> available ref_collab w x y width height" for x y
    using assms(2)
    by (simp add: available_def centredBox_def ref_ready_fields(3) [OF assms(1)])
       (simp add: ref_collab_def ref_fits_def)
  then have "res_failed (testRadius ref_collab w r (ring ref_collab w r) width height)" for r
    by (intro testRadius_unavailable) simp
  then have "find (\<lambda>r. \<not> res_failed (testRadius ref_collab w r (ring ref_collab w r) width height))
               (radii w) = None"
    by (simp add: find_None_iff)
  then show ?thesis
    unfolding nextPos_radial [OF ref_radial_premises [OF assms(1)]]
    by (simp add: ref_ready_fields(3,4) [OF assms(1)])
qed

lemma ref_nextPos_first:
  assumes "ref_ready w" and "w_grid w = []"
  shows "nextPos ref_collab w 25 45 = Inr ((31, 40, True), w\<lparr>rt_search := rt_search w + 1\<rparr>)"
proof -
  have t: "testRadius ref_collab w 1 (ring ref_collab w 1) 25 45 =
             \<lparr>res_radius = 1, res_x = 31, res_y = 40, res_failed = False\<rparr>"
    unfolding ref_ready_fields(6) [OF assms(1)]
    by (simp add: testRadius_def available_def centredBox_def ref_circle_def
        ref_ready_fields(3,4) [OF assms(1)] assms(2))
       (simp add: ref_collab_def ref_fits_def)
  show ?thesis
    unfolding nextPos_radial [OF ref_radial_premises [OF assms(1)]]
    by (simp add: ref_ready_fields(2) [OF assms(1)] t)
qed

lemma ref_Place_wide:
  assumes "ref_ready w" and "sortedWordList w = first # rest" and "count first = 2"
    and "count wc = 1" and "length (word wc) = 10"
  shows "\<exists>w'. Place ref_collab w wc = Inr (False, w') \<and> ref_ready w'
           \<and> sortedWordList w' = sortedWordList w \<and> w_grid w' = w_grid w"
proof -
  let ?w3 = "w\<lparr>rt_rand := Suc (rt_rand w),
              fonts := (fonts w)(Finite 20 \<mapsto> Finite 20),
              w_dc := (w_dc w)\<lparr>cv_pen := RGBA 0 0 0 0, cv_face := Some (Finite 20)\<rparr>\<rparr>"
  have m: "Place_measure ref_collab w wc = Inr (105, 25, ?w3)"
    using ref_Place_measure [OF assms(1,2,3), of wc] assms(4,5) by simp
  from assms(1) have fs: "(fonts w)(Finite 20 \<mapsto> Finite 20)
        \<subseteq>\<^sub>m [Finite 20 \<mapsto> Finite 20, Finite 40 \<mapsto> Finite 40]"
    by (auto simp: ref_ready_def map_le_def)
  with assms(1) have r3: "ref_ready ?w3" by (simp add: ref_ready_def)
  have n: "nextPos ref_collab ?w3 105 25 = Inr ((60, 80, False), ?w3\<lparr>rt_search := rt_search ?w3 + 1\<rparr>)"
    by (rule ref_nextPos_wide [OF r3]) simp
  have "Place ref_collab w wc = Inr (False, ?w3\<lparr>rt_search := rt_search ?w3 + 1\<rparr>)"
    unfolding Place_def m by (simp add: n)
  moreover have "ref_ready (?w3\<lparr>rt_search := rt_search ?w3 + 1\<rparr>)"
    using r3 by (simp add: ref_ready_def)
  ultimately show ?thesis by simp
qed

lemma ref_place_all_wide:
  assumes "ref_ready w" and "sortedWordList w = first # rest" and "count first = 2"
    and "\<forall>wc\<in>set wcs. count wc = 1 \<and> length (word wc) = 10"
  shows "\<exists>w'. place_all (Place ref_collab) w wcs = Inr (replicate (length wcs) False, w')
           \<and> w_grid w' = w_grid w"
  using assms
proof (induction wcs arbitrary: w)
  case Nil
  then show ?case by simp
next
  case (Cons wc wcs)
  from Cons.prems(4) have wc: "count wc = 1" "length (word wc) = 10" by simp_all
  from ref_Place_wide [OF Cons.prems(1,2,3) wc] obtain w1 where
    p: "Place ref_collab w wc = Inr (False, w1)" and r: "ref_ready w1"
    and s: "sortedWordList w1 = first # rest" and g: "w_grid w1 = w_grid w"
    using Cons.prems(2) by auto
  from Cons.prems(4) have "\<forall>wc\<in>set wcs. count wc = 1 \<and> length (word wc) = 10" by simp
  from Cons.IH [OF r s Cons.prems(3) this] obtain w' where
    "place_all (Place ref_collab) w1 wcs = Inr (replicate (length wcs) False, w')"
    "w_grid w' = w_grid w1"
    by blast
  with p g show ?case by simp
qed

lemma ref_words_sorted:
  "sortedWordList (ref_cloud ref_words) =
     \<lparr>word = ''a'', count = 2\<rparr> #
     [\<lparr>word = ''cloud-0001'', count = 1\<rparr>, \<lparr>word = ''cloud-0002'', count = 1\<rparr>,
      \<lparr>word = ''cloud-0003'', count = 1\<rparr>, \<lparr>word = ''cloud-0004'', count = 1\<rparr>,
      \<lparr>word = ''cloud-0005'', count = 1\<rparr>, \<lparr>word = ''cloud-0006'', count = 1\<rparr>,
      \<lparr>word = ''cloud-0007'', count = 1\<rparr>, \<lparr>word = ''cloud-0008'', count = 1\<rparr>,
      \<lparr>word = ''cloud-0009'', count = 1\<rparr>, \<lparr>word = ''cloud-0010'', count = 1\<rparr>,
      \<lparr>word = ''cloud-0011'', count = 1\<rparr>]
     @ [\<lparr>word = ''cloud-0012'', count = 1\<rparr>]"
  by (simp add: ref_cloud_rest ref_words_def sortWordList_def trimSpaces_def)


lemma ref_Place_first:
  assumes "sortedWordList (ref_cloud wl) = \<lparr>word = ''a'', count = 2\<rparr> # rest"
  shows "\<exists>w'. Place ref_collab (ref_cloud wl) \<lparr>word = ''a'', count = 2\<rparr> = Inr (True, w')
           \<and> ref_ready w' \<and> sortedWordList w' = sortedWordList (ref_cloud wl)
           \<and> w_grid w' = [\<lparr>Top = 52, Left = 28, Right = 43, Bottom = 37\<rparr>]"
proof -
  let ?w = "ref_cloud wl"
  let ?wc = "\<lparr>word = ''a'', count = 2\<rparr>"
  let ?d = "\<lparr>cv_width = 60, cv_height = 80, cv_pen = RGBA 0 0 0 0, cv_face = Some (Finite 40),
            cv_path = None, cv_pixels = \<lambda>i j. RGBA 255 255 255 255\<rparr>"
  let ?w3 = "?w\<lparr>rt_rand := Suc (rt_rand ?w), fonts := (fonts ?w)(Finite 40 \<mapsto> Finite 40), w_dc := ?d\<rparr>"
  let ?w4 = "?w3\<lparr>rt_search := rt_search ?w3 + 1\<rparr>"
  let ?w5 = "?w4\<lparr>w_dc := gg_DrawStringAnchored ref_collab (w_dc ?w4) (word ?wc) 31 40 0.5 0.5\<rparr>"
  have m: "Place_measure ref_collab ?w ?wc = Inr (25, 45, ?w3)"
    using ref_Place_measure [OF ref_ready_cloud assms, of ?wc] by (simp add: ref_cloud_dc)
  have r3: "ref_ready ?w3"
    using ref_ready_cloud [of wl] by (simp add: ref_ready_def ref_cloud_rest map_le_def)
  have n: "nextPos ref_collab ?w3 25 45 = Inr ((31, 40, True), ?w4)"
    by (rule ref_nextPos_first [OF r3]) (simp add: ref_cloud_canvas)
  have box: "placedBox 31 40 25 45 = \<lparr>Top = 76, Left = 37 / 2, Right = 87 / 2, Bottom = 35 / 2\<rparr>"
    by (simp add: placedBox_def)
  have at: "gg_At ref_collab (w_dc ?w5) =
      (\<lambda>a b. if \<bar>a - 31\<bar> \<le> 2 \<and> \<bar>b - 40\<bar> \<le> 2 then RGBA 0 0 0 0 else RGBA 255 255 255 255)"
    by (simp add: ref_collab_def cv_paint_def cong: if_cong)
  have pbs: "getPreciseBoundingBoxes ref_collab ?w5 (placedBox 31 40 25 45) =
      [\<lparr>Top = 52, Left = 28, Right = 43, Bottom = 37\<rparr>]"
    unfolding getPreciseBoundingBoxes_def precise_rows_eq at box
    by (simp add: go_trunc_def ref_steps defColor_def sampleBox_def)
  let ?w' = "registerBox ref_collab ?w5 (placedBox 31 40 25 45) 45"
  have p: "Place ref_collab ?w ?wc = Inr (True, ?w')"
    unfolding Place_def m by (simp add: n Let_def)
  have reg: "?w' = addPreciseBoxes ref_collab ?w5 [\<lparr>Top = 52, Left = 28, Right = 43, Bottom = 37\<rparr>]"
    unfolding registerBox_def pbs by (simp del: addPreciseBoxes.simps)
  have g: "w_grid ?w' = [\<lparr>Top = 52, Left = 28, Right = 43, Bottom = 37\<rparr>]"
    unfolding reg addPreciseBoxes_grid
    by (simp add: ref_cloud_canvas) (simp add: ref_collab_def)
  from Place_frame [OF p] obtain g' d' f' k' j' where
    "?w' = ?w\<lparr>w_grid := g', w_dc := d', fonts := f', rt_rand := k', rt_search := j'\<rparr>"
    and f: "f' = fonts ?w'" by blast
  moreover have "fonts ?w' = (fonts ?w)(Finite 40 \<mapsto> Finite 40)"
    unfolding reg by (subst addPreciseBoxes_frame) simp
  ultimately have "ref_ready ?w'" "sortedWordList ?w' = sortedWordList ?w"
    using ref_ready_cloud [of wl]
    by (simp_all add: ref_ready_def ref_cloud_rest map_le_def)
  with p g show ?thesis by blast
qed

lemma misses_after_replicate: "misses_after m (replicate k False) = m + k"
  by (induction k arbitrary: m) (simp_all add: misses_after_def)

lemma misses_after_one_then_misses:
  "misses_after 0 (take n (True # replicate k False)) = min (n - 1) k"
proof (cases n)
  case 0
  then show ?thesis by (simp add: misses_after_def)
next
  case (Suc j)
  then show ?thesis by (simp add: misses_after_Cons misses_after_replicate)
qed

theorem Draw_miss_cap_witness:
  "\<exists>w'. length (sortedWordList (ref_cloud ref_words)) = 13
      \<and> place_all (Place ref_collab) (ref_cloud ref_words)
            (take 12 (sortedWordList (ref_cloud ref_words))) = Inr (True # replicate 11 False, w')
      \<and> misses_after 0 (True # replicate 11 False) = 11
      \<and> Draw ref_collab (ref_cloud ref_words) = Inr w'
      \<and> w_grid w' = [\<lparr>Top = 52, Left = 28, Right = 43, Bottom = 37\<rparr>]"
proof -
  let ?w = "ref_cloud ref_words"
  let ?a = "\<lparr>word = ''a'', count = 2\<rparr>"
  let ?long = "[\<lparr>word = ''cloud-0001'', count = 1\<rparr>, \<lparr>word = ''cloud-0002'', count = 1\<rparr>,
      \<lparr>word = ''cloud-0003'', count = 1\<rparr>, \<lparr>word = ''cloud-0004'', count = 1\<rparr>,
      \<lparr>word = ''cloud-0005'', count = 1\<rparr>, \<lparr>word = ''cloud-0006'', count = 1\<rparr>,
      \<lparr>word = ''cloud-0007'', count = 1\<rparr>, \<lparr>word = ''cloud-0008'', count = 1\<rparr>,
      \<lparr>word = ''cloud-0009'', count = 1\<rparr>, \<lparr>word = ''cloud-0010'', count = 1\<rparr>,
      \<lparr>word = ''cloud-0011'', count = 1\<rparr>]"
  let ?rest = "[\<lparr>word = ''cloud-0012'', count = 1\<rparr>]"
  note s = ref_words_sorted
  have s': "sortedWordList ?w = (?a # ?long) @ ?rest" by (simp add: s)
  have t: "take 12 (sortedWordList ?w) = ?a # ?long" by (simp add: s)
  from ref_Place_first [OF s] obtain w1 where
    p1: "Place ref_collab ?w ?a = Inr (True, w1)" and r1: "ref_ready w1"
    and s1: "sortedWordList w1 = ?a # (?long @ ?rest)"
    and g1: "w_grid w1 = [\<lparr>Top = 52, Left = 28, Right = 43, Bottom = 37\<rparr>]"
    by (auto simp: s)
  have "\<forall>wc\<in>set ?long. count wc = 1 \<and> length (word wc) = 10" by simp
  from ref_place_all_wide [OF r1 s1 _ this] obtain w' where
    pa: "place_all (Place ref_collab) w1 ?long = Inr (replicate (length ?long) False, w')"
    and g: "w_grid w' = w_grid w1"
    by auto
  have len: "length ?long = 11" by simp
  have "place_all (Place ref_collab) ?w (?a # ?long) =
      (case Place ref_collab ?w ?a of
         Inl a \<Rightarrow> Inl a
       | Inr (success, w1') \<Rightarrow>
           (case place_all (Place ref_collab) w1' ?long of
              Inl a \<Rightarrow> Inl a
            | Inr (bs, w'') \<Rightarrow> Inr (success # bs, w'')))"
    by (rule place_all.simps(2))
  also have "\<dots> = Inr (True # replicate 11 False, w')"
    unfolding p1 by (simp only: sum.case prod.case pa len)
  finally have all: "place_all (Place ref_collab) ?w (?a # ?long) = Inr (True # replicate 11 False, w')" .
  have small: "\<forall>n<length (True # replicate 11 False).
                 misses_after 0 (take n (True # replicate 11 False)) \<le> 10"
    unfolding misses_after_one_then_misses by auto
  have big: "misses_after 0 (True # replicate 11 False) = 11"
    by (simp add: misses_after_Cons misses_after_replicate)
  then have last: "10 < misses_after 0 (True # replicate 11 False) \<or> ?rest = []" by simp
  from Draw_miss_cap [OF s' all small last] have "Draw ref_collab ?w = Inr w'" by blast
  with all big g g1 show ?thesis
    unfolding t by (intro exI [of _ w']) (simp add: s)
qed


section \<open>A cloud without words\<close>

text \<open>
  C10, as amended. For a cloud built from an empty frequency map the sorted word list is
  empty, so the loop of \<^verbatim>\<open>Draw\<close> returns at once, whatever the function that places a
  word would do: \<^verbatim>\<open>Place\<close> is not executed, and with it neither the access to the first
  element of the list nor the division by its count. \<^verbatim>\<open>Draw\<close> returns normally, and the
  object and its canvas are as \<^verbatim>\<open>NewWordcloud\<close> left them: the canvas cleared with the
  background colour, on which the outlines of the masks have been drawn in debug mode.
  Without debug mode, or without masks, it is the cleared canvas.
\<close>

theorem Draw_empty_map:
  "(let w = NewWordcloud E [] options;
        os = opts w;
        cleared = gg_SetRGB E (gg_Clear E (gg_SetColor E (gg_NewContext E (Width os) (Height os))
                                             (BackgroundColor os))) 0 0 0
    in sortedWordList w = []
     \<and> (\<forall>place. Draw_loop place w 0 (sortedWordList w) = Inr w)
     \<and> Draw E w = Inr w
     \<and> w_dc w = fst (addMasks E os cleared
                       (newSpatialHashMap E (real_of_int (Width os)) (real_of_int (Height os))
                          (go_quot (Height os) 10))
                       (Mask os))
     \<and> (\<not> Debug os \<or> Mask os = [] \<longrightarrow> w_dc w = cleared))"
proof -
  let ?w = "NewWordcloud E [] options"
  let ?os = "opts ?w"
  have s: "sortedWordList ?w = []"
    by (simp add: NewWordcloud_def Let_def split_beta sortWordList_def)
  have d: "w_dc ?w = fst (addMasks E ?os
             (gg_SetRGB E (gg_Clear E (gg_SetColor E (gg_NewContext E (Width ?os) (Height ?os))
                                             (BackgroundColor ?os))) 0 0 0)
             (newSpatialHashMap E (real_of_int (Width ?os)) (real_of_int (Height ?os))
                          (go_quot (Height ?os) 10))
             (Mask ?os))"
    by (simp add: NewWordcloud_def Let_def split_beta)
  have plain: "fst (addMasks E os c g bs) = c" if "\<not> Debug os \<or> bs = []" for os c g bs
    using that by (induction bs arbitrary: g) (auto simp: Let_def)
  show ?thesis
    unfolding Let_def using s d plain by (simp add: Draw_def)
qed

theorem Draw_empty_map_witness:
  "\<not> Debug (opts (NewWordcloud ref_collab [] ref_options))
   \<and> Draw ref_collab (NewWordcloud ref_collab [] ref_options) = Inr (NewWordcloud ref_collab [] ref_options)
   \<and> w_dc (NewWordcloud ref_collab [] ref_options) =
       \<lparr>cv_width = 60, cv_height = 80, cv_pen = RGBA 0 0 0 255, cv_face = None, cv_path = None,
        cv_pixels = (\<lambda>i j. RGBA 255 255 255 255)\<rparr>"
proof -
  have o: "opts (NewWordcloud ref_collab [] ref_options) =
      defaultOptions\<lparr>Width := 60, Height := 80, FontMaxSize := 40, FontMinSize := 4\<rparr>"
    using ref_cloud_rest(3) [of "[]"] by (simp add: ref_cloud_def)
  from Draw_empty_map [of ref_collab ref_options] o ref_cloud_dc [of "[]"]
  show ?thesis
    unfolding Let_def ref_cloud_def by (simp add: defaultOptions_def)
qed

text \<open>
  In debug mode with one mask, the canvas \<^verbatim>\<open>Draw\<close> returns for the empty frequency map
  is not the background alone: the pixel at the corner of the mask is black.
\<close>

theorem Draw_empty_map_debug_mask:
  "\<not> isl (Draw ref_collab (NewWordcloud ref_collab []
             [Debug_opt, MaskBoxes_opt [\<lparr>Top = 20, Left = 10, Right = 20, Bottom = 10\<rparr>]]))
   \<and> gg_At ref_collab (w_dc (projr (Draw ref_collab (NewWordcloud ref_collab []
             [Debug_opt, MaskBoxes_opt [\<lparr>Top = 20, Left = 10, Right = 20, Bottom = 10\<rparr>]])))) 10 10
       = RGBA 0 0 0 255
   \<and> BackgroundColor (opts (NewWordcloud ref_collab []
             [Debug_opt, MaskBoxes_opt [\<lparr>Top = 20, Left = 10, Right = 20, Bottom = 10\<rparr>]]))
       = RGBA 255 255 255 255"
proof -
  let ?w = "NewWordcloud ref_collab []
             [Debug_opt, MaskBoxes_opt [\<lparr>Top = 20, Left = 10, Right = 20, Bottom = 10\<rparr>]]"
  have s: "sortedWordList ?w = []"
    by (simp add: NewWordcloud_def Let_def split_beta sortWordList_def)
  have d: "Draw ref_collab ?w = Inr ?w" by (simp add: Draw_def s)
  have o: "opts ?w = defaultOptions\<lparr>Debug := True,
             Mask := [\<lparr>Top = 20, Left = 10, Right = 20, Bottom = 10\<rparr>]\<rparr>"
    by (simp add: NewWordcloud_fields Debug_opt_def MaskBoxes_opt_def)
  have "gg_At ref_collab (w_dc ?w) 10 10 = RGBA 0 0 0 255"
    unfolding NewWordcloud_def o [unfolded NewWordcloud_fields(3)]
    by (simp add: Let_def split_beta defaultOptions_def) (simp add: ref_collab_def cv_paint_def)
  with d o show ?thesis by (simp add: defaultOptions_def)
qed

end
